theory Spec2Isabelle
  imports Complex_Main
begin

section \<open>Visual Product Matcher: the embedding index and the similarity search\<close>

text \<open>
  A shallow embedding of \<^verbatim>\<open>backend/clip_model.py\<close>: the persisted embedding
  index (\<^verbatim>\<open>save_embeddings\<close>, \<^verbatim>\<open>load_embeddings\<close>), the index builder
  (\<^verbatim>\<open>build_index\<close>), the staleness test of \<^verbatim>\<open>ensure_index\<close> and the
  ranking of \<^verbatim>\<open>search\<close>.

  What the program takes from outside is a parameter of the model:
  \<^item> \<open>lp\<close>: \<^verbatim>\<open>preprocess(load_image(path_or_url))\<close>, the tensor of one image, or
    \<open>None\<close> when either call raises;
  \<^item> \<open>enc\<close>: \<^verbatim>\<open>model.encode_image\<close> on a batch followed by the normalisation
    (lines 105-108 and 157-160), one embedding per row, or \<open>None\<close> when it raises;
  \<^item> \<open>topk\<close>: \<^verbatim>\<open>torch.topk\<close>, the values and the indices it selects;
  \<^item> \<open>products\<close>: what \<^verbatim>\<open>load_products()\<close> returns; \<open>now\<close>: \<^verbatim>\<open>int(time.time())\<close>;
  \<^item> the file \<^verbatim>\<open>embeddings.json\<close> is an explicit state, passed in and returned.

  Scores are 32-bit floats in the program and real numbers here: rounding and NaN are
  outside the model, the order of the scores is what the ranking uses.
\<close>

subsection \<open>Data\<close>

type_synonym embedding = "real list"

text \<open>A catalog entry: the four keys of a product that the program reads.\<close>

record product =
  pid :: string
  name :: string
  category :: string
  image_url :: string

text \<open>One entry of \<^verbatim>\<open>results\<close> (lines 171-174): the product's keys and the score.\<close>

record result = product +
  score :: real

text \<open>One entry of \<^verbatim>\<open>items\<close> (line 110): \<^verbatim>\<open>{'id': pid, 'embedding': vec}\<close>.\<close>

record item =
  item_id :: string
  embedding :: embedding

text \<open>
  The index dictionary. A key may be missing: \<^verbatim>\<open>load_embeddings\<close> returns \<^verbatim>\<open>{}\<close>
  for a missing file, \<^verbatim>\<open>build_index\<close> returns only \<^verbatim>\<open>model\<close> and \<^verbatim>\<open>items\<close>, and
  \<^verbatim>\<open>ensure_index\<close> reads with \<^verbatim>\<open>.get\<close>. Keys the program never reads are left out.
\<close>

record index_dict =
  model :: "string option"
  created_at :: "int option"
  count :: "int option"
  items :: "item list option"

text \<open>The dictionary returned by \<^verbatim>\<open>search\<close> (line 176).\<close>

record search_output =
  count_out :: nat
  results :: "result list"

text \<open>
  The file \<^verbatim>\<open>embeddings.json\<close>, by what lines 86-89 do with it:
  \<^item> \<open>No_file\<close>: \<^verbatim>\<open>EMBEDDINGS_JSON.exists()\<close> is false;
  \<^item> \<open>Not_utf8\<close>: the bytes are no UTF-8 text, so that reading the file opened with
    \<^verbatim>\<open>encoding='utf-8'\<close> raises \<^verbatim>\<open>UnicodeDecodeError\<close>;
  \<^item> \<open>Not_json\<close>: the text is one that \<^verbatim>\<open>json.load\<close> rejects with
    \<^verbatim>\<open>json.JSONDecodeError\<close> (an empty or truncated file among others);
  \<^item> \<open>Json d\<close>: \<^verbatim>\<open>json.load\<close> returns the dictionary \<open>d\<close>.
  The last two follow Python's decoder, not the JSON standard: the decoder accepts the
  literals \<^verbatim>\<open>NaN\<close> and \<^verbatim>\<open>Infinity\<close>. A text that decodes to something else than a
  dictionary, and values of another type than the fields of \<open>index_dict\<close>, are outside the
  model.
\<close>

datatype embeddings_file = No_file | Not_utf8 | Not_json | Json index_dict

datatype error =
    UnicodeDecodeError
  | JSONDecodeError
  | KeyError
  | IndexError
  | Empty_Embeddings_Index
  | Image_error
  | Encode_error
  | Shape_error
  | Topk_error

definition MODEL_NAME :: string where
  "MODEL_NAME = ''ViT-B/32''"

subsection \<open>The persisted index\<close>

definition empty_dict :: index_dict where
  "empty_dict = \<lparr>model = None, created_at = None, count = None, items = None\<rparr>"

text \<open>Lines 75-80: the payload that \<^verbatim>\<open>save_embeddings\<close> dumps.\<close>

definition payload :: "int \<Rightarrow> item list \<Rightarrow> index_dict" where
  "payload now its =
     \<lparr>model = Some MODEL_NAME, created_at = Some now,
      count = Some (int (length its)), items = Some its\<rparr>"

text \<open>
  Lines 81-82, one file state per statement: \<^verbatim>\<open>open(EMBEDDINGS_JSON, 'w')\<close> truncates
  the file in place (it exists and is empty, which is no JSON document), then
  \<^verbatim>\<open>json.dump\<close> and the end of the \<^verbatim>\<open>with\<close> block leave the payload in it.
\<close>

definition save_embeddings_steps :: "int \<Rightarrow> item list \<Rightarrow> embeddings_file \<Rightarrow> embeddings_file list" where
  "save_embeddings_steps now its fs = [Not_json, Json (payload now its)]"

definition save_embeddings :: "int \<Rightarrow> item list \<Rightarrow> embeddings_file \<Rightarrow> embeddings_file" where
  "save_embeddings now its fs = last (save_embeddings_steps now its fs)"

text \<open>Lines 85-89.\<close>

definition load_embeddings :: "embeddings_file \<Rightarrow> error + index_dict" where
  "load_embeddings fs =
     (case fs of
        No_file \<Rightarrow> Inr empty_dict
      | Not_utf8 \<Rightarrow> Inl UnicodeDecodeError
      | Not_json \<Rightarrow> Inl JSONDecodeError
      | Json d \<Rightarrow> Inr d)"

subsection \<open>Building the index\<close>

definition B :: nat where
  "B = 16"

text \<open>The three variables of the loop: \<^verbatim>\<open>items\<close>, \<^verbatim>\<open>batch_imgs\<close>, \<^verbatim>\<open>batch_ids\<close>.\<close>

type_synonym 't build_state = "item list \<times> 't list \<times> string list"

text \<open>
  Lines 100-111. An exception of the encoder leaves the three variables as they were:
  the batch is emptied by the last statement only.
\<close>

definition flush_batch :: "('t list \<Rightarrow> embedding list option) \<Rightarrow> 't build_state \<Rightarrow> error + 't build_state" where
  "flush_batch enc st =
     (case st of (its, batch_imgs, batch_ids) \<Rightarrow>
        if batch_imgs = [] then Inr st
        else (case enc batch_imgs of
                None \<Rightarrow> Inl Encode_error
              | Some feats \<Rightarrow>
                  Inr (its @ map (\<lambda>(i, vec). \<lparr>item_id = i, embedding = vec\<rparr>) (zip batch_ids feats),
                       [], [])))"

text \<open>
  Lines 114-122, the body of the loop for one product. Every exception raised inside
  the \<^verbatim>\<open>try\<close> is caught and logged: a failing image appends nothing, and a failing
  flush keeps what was appended.
\<close>

definition build_step ::
  "(string \<Rightarrow> 't option) \<Rightarrow> ('t list \<Rightarrow> embedding list option) \<Rightarrow> product \<Rightarrow> 't build_state \<Rightarrow> 't build_state" where
  "build_step lp enc p st =
     (case st of (its, batch_imgs, batch_ids) \<Rightarrow>
        (case lp (image_url p) of
           None \<Rightarrow> st
         | Some t \<Rightarrow>
             let st' = (its, batch_imgs @ [t], batch_ids @ [pid p])
             in if length (batch_imgs @ [t]) \<ge> B
                then (case flush_batch enc st' of Inl e \<Rightarrow> st' | Inr st'' \<Rightarrow> st'')
                else st'))"

fun build_loop ::
  "(string \<Rightarrow> 't option) \<Rightarrow> ('t list \<Rightarrow> embedding list option) \<Rightarrow> product list \<Rightarrow> 't build_state \<Rightarrow> 't build_state" where
  "build_loop lp enc [] st = st"
| "build_loop lp enc (p # ps) st = build_loop lp enc ps (build_step lp enc p st)"

text \<open>
  Lines 92-127. The last flush is outside the \<^verbatim>\<open>try\<close>: its exception leaves
  \<^verbatim>\<open>build_index\<close>, before anything is saved.
\<close>

definition build_index ::
  "(string \<Rightarrow> 't option) \<Rightarrow> ('t list \<Rightarrow> embedding list option) \<Rightarrow> product list \<Rightarrow> int \<Rightarrow> embeddings_file
     \<Rightarrow> (error + index_dict) \<times> embeddings_file" where
  "build_index lp enc products now fs =
     (case flush_batch enc (build_loop lp enc products ([], [], [])) of
        Inl e \<Rightarrow> (Inl e, fs)
      | Inr (its, batch_imgs, batch_ids) \<Rightarrow>
          (Inr \<lparr>model = Some MODEL_NAME, created_at = None, count = None, items = Some its\<rparr>,
           save_embeddings now its fs))"

subsection \<open>Staleness\<close>

text \<open>
  The condition of line 133. \<^verbatim>\<open>not idx\<close> holds of the empty dictionary;
  \<^verbatim>\<open>idx.get('count', 0)\<close> is 0 for a missing key.
\<close>

definition needs_rebuild :: "bool \<Rightarrow> index_dict \<Rightarrow> product list \<Rightarrow> bool" where
  "needs_rebuild rebuild idx products \<longleftrightarrow>
     rebuild \<or> idx = empty_dict \<or> model idx \<noteq> Some MODEL_NAME
     \<or> (case count idx of None \<Rightarrow> 0 | Some c \<Rightarrow> c) < int (length products)"

text \<open>Lines 130-135.\<close>

definition ensure_index ::
  "(string \<Rightarrow> 't option) \<Rightarrow> ('t list \<Rightarrow> embedding list option) \<Rightarrow> product list \<Rightarrow> int \<Rightarrow> embeddings_file \<Rightarrow> bool
     \<Rightarrow> (error + index_dict) \<times> embeddings_file" where
  "ensure_index lp enc products now fs rebuild =
     (case load_embeddings fs of
        Inl e \<Rightarrow> (Inl e, fs)
      | Inr idx \<Rightarrow>
          if needs_rebuild rebuild idx products
          then build_index lp enc products now fs
          else (Inr idx, fs))"

subsection \<open>Searching\<close>

text \<open>Line 145: a later product replaces an earlier one with the same id.\<close>

definition pmap_of :: "product list \<Rightarrow> (string \<rightharpoonup> product)" where
  "pmap_of products = foldl (\<lambda>m p. m(pid p \<mapsto> p)) Map.empty products"

text \<open>Lines 148-149: the records of the index whose id is a key of \<^verbatim>\<open>pmap\<close>.\<close>

definition retained :: "product list \<Rightarrow> item list \<Rightarrow> item list" where
  "retained products its = filter (\<lambda>it. item_id it \<in> dom (pmap_of products)) its"

text \<open>Lines 138-139 and 162, for a query of one row: a dot product per retained row.\<close>

definition cosine_similarity :: "embedding \<Rightarrow> embedding list \<Rightarrow> real list" where
  "cosine_similarity a b = map (\<lambda>e. sum_list (map2 (*) a e)) b"

text \<open>Lines 155-160: the embedding of the query image, a batch of one.\<close>

definition query_features ::
  "(string \<Rightarrow> 't option) \<Rightarrow> ('t list \<Rightarrow> embedding list option) \<Rightarrow> string \<Rightarrow> error + embedding" where
  "query_features lp enc query_path =
     (case lp query_path of
        None \<Rightarrow> Inl Image_error
      | Some t \<Rightarrow>
          (case enc [t] of
             None \<Rightarrow> Inl Encode_error
           | Some [qf] \<Rightarrow> Inr qf
           | Some _ \<Rightarrow> Inl Shape_error))"

type_synonym topk_fun = "real list \<Rightarrow> nat \<Rightarrow> real list \<times> nat list"

text \<open>Lines 165-174: the loop over the selected scores and indices.\<close>

fun collect :: "(string \<rightharpoonup> product) \<Rightarrow> string list \<Rightarrow> real \<Rightarrow> (real \<times> nat) list \<Rightarrow> error + result list" where
  "collect pmap ids min_score [] = Inr []"
| "collect pmap ids min_score ((s, i) # rest) =
     (if s < min_score then collect pmap ids min_score rest
      else if i \<ge> length ids then Inl IndexError
      else (case pmap (ids ! i) of
              None \<Rightarrow> Inl KeyError
            | Some p \<Rightarrow>
                (case collect pmap ids min_score rest of
                   Inl e \<Rightarrow> Inl e
                 | Inr rs \<Rightarrow> Inr (product.extend p \<lparr>score = s\<rparr> # rs))))"

text \<open>
  Lines 145-176 of \<^verbatim>\<open>search\<close>, from the index that \<^verbatim>\<open>ensure_index\<close> returned.
  \<open>qres\<close> is the outcome of lines 155-160, looked at only once the retained list is
  known to be non-empty, as in the program. Embeddings of unequal lengths make the
  tensor of line 153 raise, embeddings of another length than the query make the
  matrix product of line 162 raise, and a negative \<open>k\<close> makes \<^verbatim>\<open>torch.topk\<close> raise.
\<close>

definition search_core ::
  "topk_fun \<Rightarrow> product list \<Rightarrow> index_dict \<Rightarrow> error + embedding \<Rightarrow> int \<Rightarrow> real \<Rightarrow> error + search_output" where
  "search_core topk products idx qres top_k min_score =
     (let pmap = pmap_of products in
      case items idx of
        None \<Rightarrow> Inl KeyError
      | Some its \<Rightarrow>
          let emb_list = map embedding (retained products its);
              ids = map item_id (retained products its)
          in if emb_list = [] then Inl Empty_Embeddings_Index
             else if \<exists>e \<in> set emb_list. length e \<noteq> length (hd emb_list) then Inl Shape_error
             else (case qres of
                     Inl e \<Rightarrow> Inl e
                   | Inr qf \<Rightarrow>
                       if length (hd emb_list) \<noteq> length qf then Inl Shape_error
                       else
                         let sims = cosine_similarity qf emb_list;
                             k = min top_k (int (length sims))
                         in if k < 0 then Inl Topk_error
                            else (case topk sims (nat k) of (vals, idxs) \<Rightarrow>
                                    (case collect pmap ids min_score (zip vals idxs) of
                                       Inl e \<Rightarrow> Inl e
                                     | Inr rs \<Rightarrow> Inr \<lparr>count_out = length rs, results = rs\<rparr>))))"

text \<open>Lines 142-176.\<close>

definition search ::
  "(string \<Rightarrow> 't option) \<Rightarrow> ('t list \<Rightarrow> embedding list option) \<Rightarrow> topk_fun \<Rightarrow> product list \<Rightarrow> int \<Rightarrow> embeddings_file
     \<Rightarrow> string \<Rightarrow> int \<Rightarrow> real \<Rightarrow> (error + search_output) \<times> embeddings_file" where
  "search lp enc topk products now fs query_path top_k min_score =
     (case ensure_index lp enc products now fs False of
        (Inl e, fs') \<Rightarrow> (Inl e, fs')
      | (Inr idx, fs') \<Rightarrow>
          (search_core topk products idx (query_features lp enc query_path) top_k min_score, fs'))"

subsection \<open>What \<^verbatim>\<open>torch.topk\<close> promises\<close>

text \<open>
  \<^verbatim>\<open>torch.topk(sims, k)\<close> with \<open>k \<le> length sims\<close> returns the \<open>k\<close> largest values in
  descending order and their indices. Nothing is promised on which of two equal values
  comes first.
\<close>

definition topk_contract :: "topk_fun \<Rightarrow> bool" where
  "topk_contract topk \<longleftrightarrow>
     (\<forall>xs k. k \<le> length xs \<longrightarrow>
        (case topk xs k of (vals, idxs) \<Rightarrow>
           length idxs = k \<and> distinct idxs \<and> (\<forall>i \<in> set idxs. i < length xs)
           \<and> vals = map (\<lambda>i. xs ! i) idxs
           \<and> sorted_wrt (\<lambda>a b. a \<ge> b) vals
           \<and> (\<forall>j < length xs. j \<notin> set idxs \<longrightarrow> (\<forall>i \<in> set idxs. xs ! j \<le> xs ! i))))"

text \<open>
  Two selections that meet the contract and differ on equal values only. Neither is
  taken to be \<^verbatim>\<open>torch.topk\<close>: they are what the concrete runs below select with.
  The first lists equal values in the order of their positions: a stable sort of the
  indices by descending score, cut after \<open>k\<close>.
\<close>

definition topk_stable :: topk_fun where
  "topk_stable xs k =
     (let idxs = take k (sort_key (\<lambda>i. - (xs ! i)) [0..<length xs])
      in (map (\<lambda>i. xs ! i) idxs, idxs))"

text \<open>The second lists equal values from the last position down.\<close>

definition topk_last :: topk_fun where
  "topk_last xs k =
     (let idxs = take k (sort_key (\<lambda>i. - (xs ! i)) (rev [0..<length xs]))
      in (map (\<lambda>i. xs ! i) idxs, idxs))"

subsection \<open>The shape of an index in the specification\<close>

text \<open>
  The specification's Index has the four fields, with \<open>count\<close> the length of
  \<open>items\<close>. The program never checks it; the predicate is used to say so.
\<close>

definition index_shape :: "index_dict \<Rightarrow> bool" where
  "index_shape d \<longleftrightarrow>
     (case (model d, created_at d, count d, items d) of
        (Some m, Some t, Some c, Some its) \<Rightarrow> c = int (length its)
      | _ \<Rightarrow> False)"

subsection \<open>What the specification asks of the builder\<close>

text \<open>
  The specification's words for the result of a build: the catalog entries that were
  processed with success, in catalog order, each with the embedding of its image.
  \<open>vec_of\<close> is the embedding of one image.
\<close>

definition successful_items :: "(string \<Rightarrow> 't option) \<Rightarrow> ('t \<Rightarrow> embedding) \<Rightarrow> product list \<Rightarrow> item list" where
  "successful_items lp vec_of products =
     List.map_filter (\<lambda>p. map_option (\<lambda>t. \<lparr>item_id = pid p, embedding = vec_of t\<rparr>) (lp (image_url p))) products"

subsection \<open>Auxiliary notions for the proofs\<close>

text \<open>The items that the current batch yields once it is flushed.\<close>

definition pending :: "('t \<Rightarrow> embedding) \<Rightarrow> string list \<Rightarrow> 't list \<Rightarrow> item list" where
  "pending vec_of ids ts = map (\<lambda>(i, vec). \<lparr>item_id = i, embedding = vec\<rparr>) (zip ids (map vec_of ts))"

text \<open>Lines 169-174 for one selected pair, when both lookups succeed.\<close>

definition join_result :: "(string \<rightharpoonup> product) \<Rightarrow> string list \<Rightarrow> real \<times> nat \<Rightarrow> result" where
  "join_result pmap ids = (\<lambda>(s, i). product.extend (the (pmap (ids ! i))) \<lparr>score = s\<rparr>)"

subsection \<open>A catalog and an index as concrete inputs\<close>

text \<open>
  Four products; an index with a record of a product that left the catalog (\<open>p9\<close>),
  two records at the same distance of the query \<open>[1, 0]\<close> (\<open>p2\<close>, \<open>p1\<close>) and one
  record opposite to it (\<open>p3\<close>).
\<close>

abbreviation (input) ex_products :: "product list" where
  "ex_products \<equiv>
     [\<lparr>pid = ''p1'', name = ''Shirt'', category = ''Shirts'', image_url = ''a.jpg''\<rparr>,
      \<lparr>pid = ''p2'', name = ''Shoe'', category = ''Shoes'', image_url = ''b.jpg''\<rparr>,
      \<lparr>pid = ''p3'', name = ''Watch'', category = ''Watches'', image_url = ''c.jpg''\<rparr>,
      \<lparr>pid = ''p4'', name = ''Laptop'', category = ''Laptops'', image_url = ''d.jpg''\<rparr>]"

abbreviation (input) ex_items :: "item list" where
  "ex_items \<equiv>
     [\<lparr>item_id = ''p3'', embedding = [-1, 0]\<rparr>,
      \<lparr>item_id = ''p9'', embedding = [1, 0]\<rparr>,
      \<lparr>item_id = ''p2'', embedding = [3 / 5, - (4 / 5)]\<rparr>,
      \<lparr>item_id = ''p1'', embedding = [3 / 5, 4 / 5]\<rparr>,
      \<lparr>item_id = ''p4'', embedding = [1, 0]\<rparr>]"

abbreviation (input) ex_index :: index_dict where
  "ex_index \<equiv> \<lparr>model = Some MODEL_NAME, created_at = None, count = None, items = Some ex_items\<rparr>"

text \<open>The results of the query \<open>[1, 0]\<close> when equal scores are listed in the order of their positions.\<close>

abbreviation (input) ex_results :: "result list" where
  "ex_results \<equiv>
     [\<lparr>pid = ''p4'', name = ''Laptop'', category = ''Laptops'', image_url = ''d.jpg'', score = 1\<rparr>,
      \<lparr>pid = ''p2'', name = ''Shoe'', category = ''Shoes'', image_url = ''b.jpg'', score = 3 / 5\<rparr>,
      \<lparr>pid = ''p1'', name = ''Shirt'', category = ''Shirts'', image_url = ''a.jpg'', score = 3 / 5\<rparr>]"

text \<open>The results of the query \<open>[1, 0]\<close> when equal scores are listed from the last position down.\<close>

abbreviation (input) ex_results_last :: "result list" where
  "ex_results_last \<equiv>
     [\<lparr>pid = ''p4'', name = ''Laptop'', category = ''Laptops'', image_url = ''d.jpg'', score = 1\<rparr>,
      \<lparr>pid = ''p1'', name = ''Shirt'', category = ''Shirts'', image_url = ''a.jpg'', score = 3 / 5\<rparr>,
      \<lparr>pid = ''p2'', name = ''Shoe'', category = ''Shoes'', image_url = ''b.jpg'', score = 3 / 5\<rparr>]"

section \<open>Properties\<close>

subsection \<open>Saving and loading\<close>

lemma load_embeddings_simps [simp]:
  "load_embeddings No_file = Inr empty_dict"
  "load_embeddings Not_utf8 = Inl UnicodeDecodeError"
  "load_embeddings Not_json = Inl JSONDecodeError"
  "load_embeddings (Json d) = Inr d"
  by (simp_all add: load_embeddings_def)

lemma save_embeddings_eq [simp]: "save_embeddings now its fs = Json (payload now its)"
  by (simp add: save_embeddings_def save_embeddings_steps_def)

text \<open>
  C6, as the claim states it, fails: between \<^verbatim>\<open>open(..., 'w')\<close> and the end of the dump
  the file is neither the previous index nor the new one, and a reader that loads it
  then gets a decoding error.
\<close>

theorem C6_counterexample:
  "save_embeddings_steps 1700000000 [] (Json (payload 1600000000 [])) ! 0 = Not_json
   \<and> Not_json \<noteq> Json (payload 1600000000 [])
   \<and> Not_json \<noteq> save_embeddings 1700000000 [] (Json (payload 1600000000 []))
   \<and> load_embeddings Not_json = Inl JSONDecodeError"
  by (simp add: save_embeddings_steps_def)

text \<open>
  C6, amended: \<^verbatim>\<open>save_embeddings\<close> leaves in the file the model name, the current
  time, \<open>count\<close> equal to the number of items, and the items, whatever the file held
  before; it does so by truncating the file and then writing it, in two steps.
\<close>

theorem C6_save:
  "save_embeddings now its fs = Json (payload now its)
   \<and> model (payload now its) = Some MODEL_NAME
   \<and> created_at (payload now its) = Some now
   \<and> count (payload now its) = Some (int (length its))
   \<and> items (payload now its) = Some its
   \<and> index_shape (payload now its)
   \<and> save_embeddings_steps now its fs = [Not_json, Json (payload now its)]"
  by (simp add: payload_def index_shape_def save_embeddings_steps_def)



subsection \<open>Staleness and rebuilding\<close>

text \<open>
  C2: the test of \<^verbatim>\<open>ensure_index\<close> holds of the index of a missing file; the index is
  rebuilt exactly when the test holds; for an index with a \<open>count\<close> the test holds
  exactly when the rebuild is forced, the index is empty (absent), its model is not
  the current one, or its count is below the length of the catalog; and it fails when
  the count is that length, the model is the current one and nothing is forced.
\<close>

theorem C2_needs_rebuild:
  "needs_rebuild False empty_dict products
   \<and> (load_embeddings fs = Inr idx \<longrightarrow>
        ensure_index lp enc products now fs force =
          (if needs_rebuild force idx products then build_index lp enc products now fs
           else (Inr idx, fs)))
   \<and> (count idx = Some c \<longrightarrow>
        (needs_rebuild force idx products \<longleftrightarrow>
           force \<or> idx = empty_dict \<or> model idx \<noteq> Some MODEL_NAME \<or> c < int (length products)))
   \<and> (count idx = Some (int (length products)) \<and> model idx = Some MODEL_NAME \<longrightarrow>
        \<not> needs_rebuild False idx products)"
  by (auto simp: needs_rebuild_def ensure_index_def empty_dict_def)

theorem C2_needs_rebuild_witness:
  "needs_rebuild False empty_dict [\<lparr>pid = ''p1'', name = ''Shirt'', category = ''Shirts'', image_url = ''a.jpg''\<rparr>]
   \<and> ensure_index (\<lambda>u. None :: unit option) (\<lambda>ts. None)
        [\<lparr>pid = ''p1'', name = ''Shirt'', category = ''Shirts'', image_url = ''a.jpg''\<rparr>] 1700000000
        (Json (payload 1600000000 [\<lparr>item_id = ''p1'', embedding = [1]\<rparr>])) False
       = (Inr (payload 1600000000 [\<lparr>item_id = ''p1'', embedding = [1]\<rparr>]),
          Json (payload 1600000000 [\<lparr>item_id = ''p1'', embedding = [1]\<rparr>]))
   \<and> \<not> needs_rebuild False (payload 1600000000 [\<lparr>item_id = ''p1'', embedding = [1]\<rparr>])
         [\<lparr>pid = ''p1'', name = ''Shirt'', category = ''Shirts'', image_url = ''a.jpg''\<rparr>]
   \<and> needs_rebuild False (payload 1600000000 [])
         [\<lparr>pid = ''p1'', name = ''Shirt'', category = ''Shirts'', image_url = ''a.jpg''\<rparr>]"
  using C2_needs_rebuild [where products = "[\<lparr>pid = ''p1'', name = ''Shirt'', category = ''Shirts'', image_url = ''a.jpg''\<rparr>]"
      and fs = "Json (payload 1600000000 [\<lparr>item_id = ''p1'', embedding = [1]\<rparr>])"
      and idx = "payload 1600000000 [\<lparr>item_id = ''p1'', embedding = [1]\<rparr>]"
      and c = 1 and force = False and lp = "\<lambda>u. None :: unit option" and enc = "\<lambda>ts. None" and now = 1700000000]
    C2_needs_rebuild [where products = "[\<lparr>pid = ''p1'', name = ''Shirt'', category = ''Shirts'', image_url = ''a.jpg''\<rparr>]"
      and fs = "Json (payload 1600000000 [])"
      and idx = "payload 1600000000 []"
      and c = 0 and force = False and lp = "\<lambda>u. None :: unit option" and enc = "\<lambda>ts. None" and now = 1700000000]
  by (simp add: payload_def empty_dict_def)

lemma build_index_model:
  "build_index lp enc products now fs = (Inr idx, fs') \<Longrightarrow> model idx = Some MODEL_NAME"
  by (auto simp: build_index_def split: sum.splits prod.splits)

text \<open>
  C9: an index that \<^verbatim>\<open>ensure_index\<close> returns carries the current model name, and an
  index loaded with another model name is replaced by what \<^verbatim>\<open>build_index\<close> returns;
  \<^verbatim>\<open>ensure_index\<close> returns an index unless the file is no UTF-8 text, the file is
  not JSON, or the encoder raises in the last flush of a rebuild.
\<close>

theorem C9_model:
  "(ensure_index lp enc products now fs rebuild = (Inr idx, fs') \<longrightarrow> model idx = Some MODEL_NAME)
   \<and> (load_embeddings fs = Inr old \<and> model old \<noteq> Some MODEL_NAME \<longrightarrow>
        ensure_index lp enc products now fs rebuild = build_index lp enc products now fs)
   \<and> ((\<exists>new fs''. ensure_index lp enc products now fs rebuild = (Inr new, fs''))
        \<or> fs = Not_utf8 \<and> ensure_index lp enc products now fs rebuild = (Inl UnicodeDecodeError, fs)
        \<or> fs = Not_json \<and> ensure_index lp enc products now fs rebuild = (Inl JSONDecodeError, fs)
        \<or> ensure_index lp enc products now fs rebuild = (Inl Encode_error, fs))"
proof (intro conjI impI)
  assume "ensure_index lp enc products now fs rebuild = (Inr idx, fs')"
  then show "model idx = Some MODEL_NAME"
    by (auto simp: ensure_index_def needs_rebuild_def build_index_model split: sum.splits if_splits)
next
  assume "load_embeddings fs = Inr old \<and> model old \<noteq> Some MODEL_NAME"
  then show "ensure_index lp enc products now fs rebuild = build_index lp enc products now fs"
    by (simp add: ensure_index_def needs_rebuild_def)
next
  have b: "(\<exists>new fs''. build_index lp enc products now fs = (Inr new, fs''))
        \<or> build_index lp enc products now fs = (Inl Encode_error, fs)"
    by (auto simp: build_index_def flush_batch_def split: sum.splits prod.splits if_splits option.splits)
  show "(\<exists>new fs''. ensure_index lp enc products now fs rebuild = (Inr new, fs''))
        \<or> fs = Not_utf8 \<and> ensure_index lp enc products now fs rebuild = (Inl UnicodeDecodeError, fs)
        \<or> fs = Not_json \<and> ensure_index lp enc products now fs rebuild = (Inl JSONDecodeError, fs)
        \<or> ensure_index lp enc products now fs rebuild = (Inl Encode_error, fs)"
    using b by (cases fs) (auto simp: ensure_index_def)
qed

theorem C9_model_witness:
  "ensure_index (\<lambda>u. None :: unit option) (\<lambda>ts. None) [] 1700000000
      (Json \<lparr>model = Some ''RN50'', created_at = Some 1600000000, count = Some 0, items = Some []\<rparr>) False
     = (Inr \<lparr>model = Some MODEL_NAME, created_at = None, count = None, items = Some []\<rparr>,
        Json (payload 1700000000 []))
   \<and> model \<lparr>model = Some MODEL_NAME, created_at = None, count = None, items = Some []\<rparr> = Some MODEL_NAME
   \<and> model \<lparr>model = Some ''RN50'', created_at = Some 1600000000, count = Some 0, items = Some []\<rparr> \<noteq> Some MODEL_NAME"
  using C9_model [where lp = "\<lambda>u. None :: unit option" and enc = "\<lambda>ts. None" and products = "[]" and now = 1700000000
      and fs = "Json \<lparr>model = Some ''RN50'', created_at = Some 1600000000, count = Some 0, items = Some []\<rparr>"
      and rebuild = False
      and old = "\<lparr>model = Some ''RN50'', created_at = Some 1600000000, count = Some 0, items = Some []\<rparr>"
      and idx = "\<lparr>model = Some MODEL_NAME, created_at = None, count = None, items = Some []\<rparr>"
      and fs' = "Json (payload 1700000000 [])"]
  by (simp add: build_index_def flush_batch_def MODEL_NAME_def)

text \<open>
  C8: a second build of the same catalog with the same collaborators, run on the file
  that the first build left, returns the same result, and the two saved files hold the
  same items; only their timestamps are those of the two runs.
\<close>

theorem C8_idempotent:
  "(case build_index lp enc products now1 fs of (r1, f1) \<Rightarrow>
      (case build_index lp enc products now2 f1 of (r2, f2) \<Rightarrow>
         r2 = r1
         \<and> (\<forall>idx. r1 = Inr idx \<longrightarrow>
               (\<exists>its. items idx = Some its \<and> f1 = Json (payload now1 its) \<and> f2 = Json (payload now2 its)))))"
  by (auto simp: build_index_def split: sum.splits prod.splits)

theorem C8_idempotent_witness:
  "build_index (\<lambda>u. Some u) (\<lambda>ts. Some (map (\<lambda>t. [1]) ts))
      [\<lparr>pid = ''p1'', name = ''Shirt'', category = ''Shirts'', image_url = ''a.jpg''\<rparr>] 1600000000 No_file
     = (Inr \<lparr>model = Some MODEL_NAME, created_at = None, count = None,
              items = Some [\<lparr>item_id = ''p1'', embedding = [1]\<rparr>]\<rparr>,
        Json (payload 1600000000 [\<lparr>item_id = ''p1'', embedding = [1]\<rparr>]))
   \<and> build_index (\<lambda>u. Some u) (\<lambda>ts. Some (map (\<lambda>t. [1]) ts))
      [\<lparr>pid = ''p1'', name = ''Shirt'', category = ''Shirts'', image_url = ''a.jpg''\<rparr>] 1700000000
      (Json (payload 1600000000 [\<lparr>item_id = ''p1'', embedding = [1]\<rparr>]))
     = (Inr \<lparr>model = Some MODEL_NAME, created_at = None, count = None,
              items = Some [\<lparr>item_id = ''p1'', embedding = [1]\<rparr>]\<rparr>,
        Json (payload 1700000000 [\<lparr>item_id = ''p1'', embedding = [1]\<rparr>]))"
  using C8_idempotent [where lp = "\<lambda>u. Some u" and enc = "\<lambda>ts. Some (map (\<lambda>t. [1]) ts)"
      and products = "[\<lparr>pid = ''p1'', name = ''Shirt'', category = ''Shirts'', image_url = ''a.jpg''\<rparr>]"
      and ?now1.0 = 1600000000 and ?now2.0 = 1700000000 and fs = No_file]
  by (simp add: build_index_def flush_batch_def build_step_def B_def)

subsection \<open>Building\<close>

lemma pending_snoc:
  "length ids = length ts \<Longrightarrow>
   pending vec_of (ids @ [i]) (ts @ [t]) = pending vec_of ids ts @ [\<lparr>item_id = i, embedding = vec_of t\<rparr>]"
  by (simp add: pending_def)

lemma successful_items_Cons:
  "successful_items lp vec_of (p # ps) =
     (case lp (image_url p) of None \<Rightarrow> [] | Some t \<Rightarrow> [\<lparr>item_id = pid p, embedding = vec_of t\<rparr>])
     @ successful_items lp vec_of ps"
  by (simp add: successful_items_def split: option.splits)

lemma flush_batch_pointwise:
  assumes "\<forall>ts. ts \<noteq> [] \<longrightarrow> enc ts = Some (map vec_of ts)" and "length ids = length ts"
  shows "flush_batch enc (its, ts, ids) = Inr (its @ pending vec_of ids ts, [], [])"
  using assms by (cases "ts = []") (auto simp: flush_batch_def pending_def)

lemma build_step_pointwise:
  assumes enc: "\<forall>ts. ts \<noteq> [] \<longrightarrow> enc ts = Some (map vec_of ts)"
    and len: "length ids = length ts"
  shows "\<exists>its' ts' ids'. build_step lp enc p (its, ts, ids) = (its', ts', ids')
           \<and> length ids' = length ts'
           \<and> its' @ pending vec_of ids' ts' = its @ pending vec_of ids ts @ successful_items lp vec_of [p]"
proof (cases "lp (image_url p)")
  case None
  then show ?thesis using len by (simp add: build_step_def successful_items_Cons successful_items_def)
next
  case (Some t)
  have emb: "successful_items lp vec_of [p] = [\<lparr>item_id = pid p, embedding = vec_of t\<rparr>]"
    using Some by (simp add: successful_items_Cons successful_items_def)
  show ?thesis
  proof (cases "B \<le> length (ts @ [t])")
    case True
    have "build_step lp enc p (its, ts, ids) = (its @ pending vec_of (ids @ [pid p]) (ts @ [t]), [], [])"
      using Some True len flush_batch_pointwise [OF enc, of "ids @ [pid p]" "ts @ [t]" its]
      by (simp add: build_step_def)
    then show ?thesis using len emb by (simp add: pending_snoc) (simp add: pending_def)
  next
    case False
    then have "build_step lp enc p (its, ts, ids) = (its, ts @ [t], ids @ [pid p])"
      using Some by (simp add: build_step_def)
    then show ?thesis using len emb by (simp add: pending_snoc)
  qed
qed

lemma build_loop_pointwise:
  assumes enc: "\<forall>ts. ts \<noteq> [] \<longrightarrow> enc ts = Some (map vec_of ts)"
  shows "length ids = length ts \<Longrightarrow>
         \<exists>its' ts' ids'. build_loop lp enc ps (its, ts, ids) = (its', ts', ids')
           \<and> length ids' = length ts'
           \<and> its' @ pending vec_of ids' ts' = its @ pending vec_of ids ts @ successful_items lp vec_of ps"
proof (induction ps arbitrary: its ts ids)
  case Nil
  then show ?case by (simp add: successful_items_def)
next
  case (Cons p ps)
  from build_step_pointwise [OF enc Cons.prems, of lp p its]
  obtain its1 ts1 ids1 where
    s: "build_step lp enc p (its, ts, ids) = (its1, ts1, ids1)" and
    l: "length ids1 = length ts1" and
    e: "its1 @ pending vec_of ids1 ts1 = its @ pending vec_of ids ts @ successful_items lp vec_of [p]"
    by blast
  from Cons.IH [OF l, of its1]
  obtain its' ts' ids' where
    "build_loop lp enc ps (its1, ts1, ids1) = (its', ts', ids')" "length ids' = length ts'"
    "its' @ pending vec_of ids' ts' = its1 @ pending vec_of ids1 ts1 @ successful_items lp vec_of ps"
    by blast
  then show ?case using s e
    by (simp add: successful_items_Cons [of lp vec_of p ps] successful_items_Cons [of lp vec_of p "[]"] successful_items_def [of lp vec_of "[]"])
qed

lemma build_index_pointwise:
  assumes enc: "\<forall>ts. ts \<noteq> [] \<longrightarrow> enc ts = Some (map vec_of ts)"
  shows "build_index lp enc products now fs =
           (Inr \<lparr>model = Some MODEL_NAME, created_at = None, count = None,
                 items = Some (successful_items lp vec_of products)\<rparr>,
            Json (payload now (successful_items lp vec_of products)))"
proof -
  from build_loop_pointwise [OF enc, of "[]" "[]" lp products "[]"]
  obtain its' ts' ids' where
    b: "build_loop lp enc products ([], [], []) = (its', ts', ids')" and
    l: "length ids' = length ts'" and
    e: "its' @ pending vec_of ids' ts' = successful_items lp vec_of products"
    by (auto simp: pending_def)
  show ?thesis
    using b e flush_batch_pointwise [OF enc l, of its']
    by (simp add: build_index_def)
qed

lemma build_loop_all_fail:
  "\<forall>p \<in> set ps. lp (image_url p) = None \<Longrightarrow> build_loop lp enc ps st = st"
  by (induction ps arbitrary: st) (auto simp: build_step_def split: prod.splits)

lemma successful_items_all_fail:
  "\<forall>p \<in> set ps. lp (image_url p) = None \<Longrightarrow> successful_items lp vec_of ps = []"
  by (induction ps) (auto simp: successful_items_Cons, simp add: successful_items_def)

text \<open>
  C4, as the claim states it, fails: an image that loads but that the encoder rejects
  is not skipped. The flush of its batch raises, and the last flush is outside the
  \<^verbatim>\<open>try\<close>: the build ends with the error and saves nothing.
\<close>

theorem C4_counterexample:
  "build_index (\<lambda>u. Some u) (\<lambda>ts. those (map (\<lambda>t. if t = ''bad.jpg'' then None else Some [1]) ts))
      [\<lparr>pid = ''p1'', name = ''Shirt'', category = ''Shirts'', image_url = ''good.jpg''\<rparr>,
       \<lparr>pid = ''p2'', name = ''Shoe'', category = ''Shoes'', image_url = ''bad.jpg''\<rparr>]
      1700000000 No_file
   = (Inl Encode_error, No_file)"
  by (simp add: build_index_def flush_batch_def build_step_def B_def)

text \<open>
  C4, amended: when the encoder returns one embedding per image of the batch, the
  build returns and saves, with their count, the items of the catalog entries whose
  image could be loaded and preprocessed, in catalog order, whatever the batches were;
  an entry whose image cannot be loaded or preprocessed is left out and the build goes
  on; and when every entry fails this way the build returns and saves an empty index,
  the encoder not being called.
\<close>

theorem C4_build:
  "((\<forall>ts. ts \<noteq> [] \<longrightarrow> enc ts = Some (map vec_of ts)) \<longrightarrow>
      build_index lp enc products now fs =
        (Inr \<lparr>model = Some MODEL_NAME, created_at = None, count = None,
              items = Some (successful_items lp vec_of products)\<rparr>,
         Json (payload now (successful_items lp vec_of products)))
      \<and> count (payload now (successful_items lp vec_of products)) = Some (int (length (successful_items lp vec_of products))))
   \<and> ((\<forall>p \<in> set products. lp (image_url p) = None) \<longrightarrow>
      successful_items lp vec_of products = []
      \<and> build_index lp enc' products now fs =
        (Inr \<lparr>model = Some MODEL_NAME, created_at = None, count = None, items = Some []\<rparr>,
         Json (payload now [])))"
  using build_index_pointwise [of enc vec_of lp products now fs]
  by (auto simp: successful_items_all_fail build_loop_all_fail build_index_def flush_batch_def payload_def)


subsection \<open>The selection\<close>

lemma topk_contractD:
  assumes "topk_contract topk" "k \<le> length xs" "topk xs k = (vals, idxs)"
  shows "length idxs = k" "distinct idxs" "\<forall>i \<in> set idxs. i < length xs"
    "vals = map (\<lambda>i. xs ! i) idxs" "sorted_wrt (\<lambda>a b. a \<ge> b) vals"
    "\<forall>j < length xs. j \<notin> set idxs \<longrightarrow> (\<forall>i \<in> set idxs. xs ! j \<le> xs ! i)"
  using assms unfolding topk_contract_def by (fastforce)+

lemma insort_key_stable_wrt:
  fixes f :: "nat \<Rightarrow> real"
  assumes "sorted_wrt (\<lambda>a b. f a \<le> f b \<and> (f a = f b \<longrightarrow> a < b)) ys" "\<forall>y \<in> set ys. x < y"
  shows "sorted_wrt (\<lambda>a b. f a \<le> f b \<and> (f a = f b \<longrightarrow> a < b)) (insort_key f x ys)"
  using assms by (induction ys) (auto simp: set_insort_key)

lemma sort_key_stable_wrt:
  fixes f :: "nat \<Rightarrow> real"
  assumes "sorted_wrt (<) l"
  shows "sorted_wrt (\<lambda>a b. f a \<le> f b \<and> (f a = f b \<longrightarrow> a < b)) (sort_key f l)"
  using assms
proof (induction l)
  case Nil
  then show ?case by simp
next
  case (Cons x l)
  then have "sorted_wrt (\<lambda>a b. f a \<le> f b \<and> (f a = f b \<longrightarrow> a < b)) (sort_key f l)"
    and "\<forall>y \<in> set (sort_key f l). x < y"
    by auto
  from insort_key_stable_wrt [OF this] show ?case
    by simp
qed

lemma topk_stable_ranked:
  "snd (topk_stable xs k) = idxs \<Longrightarrow>
   sorted_wrt (\<lambda>a b. xs ! a \<ge> xs ! b \<and> (xs ! a = xs ! b \<longrightarrow> a < b)) idxs"
proof -
  assume "snd (topk_stable xs k) = idxs"
  then have idxs: "idxs = take k (sort_key (\<lambda>i. - (xs ! i)) [0..<length xs])"
    by (simp add: topk_stable_def Let_def)
  have "sorted_wrt (<) [0..<length xs]"
    by simp
  from sort_key_stable_wrt [OF this, of "\<lambda>i. - (xs ! i)"]
  have "sorted_wrt (\<lambda>a b. xs ! a \<ge> xs ! b \<and> (xs ! a = xs ! b \<longrightarrow> a < b))
          (sort_key (\<lambda>i. - (xs ! i)) [0..<length xs])"
    by (rule sorted_wrt_mono_rel [rotated]) auto
  then show ?thesis unfolding idxs by (rule sorted_wrt_take)
qed

lemma topk_stable_contract: "topk_contract topk_stable"
  unfolding topk_contract_def
proof (intro allI impI)
  fix xs :: "real list" and k
  assume k: "k \<le> length xs"
  define l where "l = sort_key (\<lambda>i. - (xs ! i)) [0..<length xs]"
  define idxs where "idxs = take k l"
  have tk: "topk_stable xs k = (map (\<lambda>i. xs ! i) idxs, idxs)"
    by (simp add: topk_stable_def l_def idxs_def Let_def)
  have setl: "set l = {0..<length xs}" and distl: "distinct l" and lenl: "length l = length xs"
    by (simp_all add: l_def)
  have ranked: "sorted_wrt (\<lambda>a b. xs ! a \<ge> xs ! b \<and> (xs ! a = xs ! b \<longrightarrow> a < b)) idxs"
    using topk_stable_ranked [of xs k idxs] tk by simp
  have sl: "sorted (map (\<lambda>i. - (xs ! i)) l)"
    by (simp add: l_def)
  have "sorted (map (\<lambda>i. - (xs ! i)) (take k l @ drop k l))"
    using sl by simp
  then have cut: "\<forall>i \<in> set (take k l). \<forall>j \<in> set (drop k l). xs ! j \<le> xs ! i"
    unfolding map_append sorted_append by auto
  have rest: "\<forall>j < length xs. j \<notin> set idxs \<longrightarrow> j \<in> set (drop k l)"
  proof (intro allI impI)
    fix j assume "j < length xs" "j \<notin> set idxs"
    then have "j \<in> set (take k l @ drop k l)" using setl by simp
    then show "j \<in> set (drop k l)" using \<open>j \<notin> set idxs\<close> unfolding idxs_def set_append by blast
  qed
  have "length idxs = k" using k lenl by (simp add: idxs_def)
  moreover have "distinct idxs" using distl by (simp add: idxs_def)
  moreover have "\<forall>i \<in> set idxs. i < length xs"
    using setl in_set_takeD [of _ k l] by (auto simp: idxs_def)
  moreover have "sorted_wrt (\<lambda>a b. a \<ge> b) (map (\<lambda>i. xs ! i) idxs)"
    unfolding sorted_wrt_map by (rule sorted_wrt_mono_rel [OF _ ranked]) simp
  moreover have "\<forall>j < length xs. j \<notin> set idxs \<longrightarrow> (\<forall>i \<in> set idxs. xs ! j \<le> xs ! i)"
    using cut rest by (auto simp: idxs_def)
  ultimately show "case topk_stable xs k of (vals, idxs) \<Rightarrow>
           length idxs = k \<and> distinct idxs \<and> (\<forall>i \<in> set idxs. i < length xs)
           \<and> vals = map (\<lambda>i. xs ! i) idxs
           \<and> sorted_wrt (\<lambda>a b. a \<ge> b) vals
           \<and> (\<forall>j < length xs. j \<notin> set idxs \<longrightarrow> (\<forall>i \<in> set idxs. xs ! j \<le> xs ! i))"
    unfolding tk by simp
qed

lemma topk_last_contract: "topk_contract topk_last"
  unfolding topk_contract_def
proof (intro allI impI)
  fix xs :: "real list" and k
  assume k: "k \<le> length xs"
  define l where "l = sort_key (\<lambda>i. - (xs ! i)) (rev [0..<length xs])"
  define idxs where "idxs = take k l"
  have tk: "topk_last xs k = (map (\<lambda>i. xs ! i) idxs, idxs)"
    by (simp add: topk_last_def l_def idxs_def Let_def)
  have setl: "set l = {0..<length xs}" and distl: "distinct l" and lenl: "length l = length xs"
    by (simp_all add: l_def)
  have sl: "sorted (map (\<lambda>i. - (xs ! i)) l)"
    by (simp add: l_def)
  then have "sorted_wrt (\<lambda>a b. - (xs ! a) \<le> - (xs ! b)) l"
    by (simp only: sorted_map)
  then have "sorted_wrt (\<lambda>a b. - (xs ! a) \<le> - (xs ! b)) idxs"
    unfolding idxs_def by (rule sorted_wrt_take)
  then have ranked: "sorted_wrt (\<lambda>a b. xs ! a \<ge> xs ! b) idxs"
    by (rule sorted_wrt_mono_rel [rotated]) simp
  have "sorted (map (\<lambda>i. - (xs ! i)) (take k l @ drop k l))"
    using sl by simp
  then have cut: "\<forall>i \<in> set (take k l). \<forall>j \<in> set (drop k l). xs ! j \<le> xs ! i"
    unfolding map_append sorted_append by auto
  have rest: "\<forall>j < length xs. j \<notin> set idxs \<longrightarrow> j \<in> set (drop k l)"
  proof (intro allI impI)
    fix j assume "j < length xs" "j \<notin> set idxs"
    then have "j \<in> set (take k l @ drop k l)" using setl by simp
    then show "j \<in> set (drop k l)" using \<open>j \<notin> set idxs\<close> unfolding idxs_def set_append by blast
  qed
  have "length idxs = k" using k lenl by (simp add: idxs_def)
  moreover have "distinct idxs" using distl by (simp add: idxs_def)
  moreover have "\<forall>i \<in> set idxs. i < length xs"
    using setl in_set_takeD [of _ k l] by (auto simp: idxs_def)
  moreover have "sorted_wrt (\<lambda>a b. a \<ge> b) (map (\<lambda>i. xs ! i) idxs)"
    unfolding sorted_wrt_map by (rule ranked)
  moreover have "\<forall>j < length xs. j \<notin> set idxs \<longrightarrow> (\<forall>i \<in> set idxs. xs ! j \<le> xs ! i)"
    using cut rest by (auto simp: idxs_def)
  ultimately show "case topk_last xs k of (vals, idxs) \<Rightarrow>
           length idxs = k \<and> distinct idxs \<and> (\<forall>i \<in> set idxs. i < length xs)
           \<and> vals = map (\<lambda>i. xs ! i) idxs
           \<and> sorted_wrt (\<lambda>a b. a \<ge> b) vals
           \<and> (\<forall>j < length xs. j \<notin> set idxs \<longrightarrow> (\<forall>i \<in> set idxs. xs ! j \<le> xs ! i))"
    unfolding tk by simp
qed

lemma topk_count:
  fixes xs :: "real list"
  assumes d: "distinct idxs" and len: "length idxs = k" and r: "\<forall>i \<in> set idxs. i < length xs"
    and top: "\<forall>j < length xs. j \<notin> set idxs \<longrightarrow> (\<forall>i \<in> set idxs. xs ! j \<le> xs ! i)"
  shows "length (filter (\<lambda>i. c \<le> xs ! i) idxs) = min k (length (filter (\<lambda>s. c \<le> s) xs))"
proof -
  define S where "S = set idxs"
  define N where "N = {i. i < length xs \<and> c \<le> xs ! i}"
  have finN: "finite N" by (simp add: N_def)
  have cardS: "card S = k" using d len by (simp add: S_def distinct_card)
  have lhs: "length (filter (\<lambda>i. c \<le> xs ! i) idxs) = card (S \<inter> N)"
  proof -
    have "{i. c \<le> xs ! i} \<inter> set idxs = S \<inter> N" using r by (auto simp: S_def N_def)
    then show ?thesis using distinct_length_filter [OF d, of "\<lambda>i. c \<le> xs ! i"] by simp
  qed
  have rhs: "length (filter (\<lambda>s. c \<le> s) xs) = card N"
    by (simp add: length_filter_conv_card N_def)
  show ?thesis
  proof (cases "S \<subseteq> N")
    case True
    then have "S \<inter> N = S" by blast
    moreover have "card S \<le> card N" using True finN by (rule card_mono [rotated])
    ultimately show ?thesis using lhs rhs cardS by simp
  next
    case False
    then obtain i where i: "i \<in> S" "i \<notin> N" by blast
    then have lt: "xs ! i < c" using r by (auto simp: S_def N_def)
    have "N \<subseteq> S"
    proof
      fix j assume j: "j \<in> N"
      show "j \<in> S"
      proof (rule ccontr)
        assume "j \<notin> S"
        then have "xs ! j \<le> xs ! i" using top j i by (auto simp: S_def N_def)
        then show False using lt j by (simp add: N_def)
      qed
    qed
    then have "S \<inter> N = N" by blast
    moreover have "card N \<le> card S" using \<open>N \<subseteq> S\<close> by (intro card_mono) (simp_all add: S_def)
    ultimately show ?thesis using lhs rhs cardS by simp
  qed
qed

lemma zip_filter_fst:
  "filter (\<lambda>(s, i). P s) (zip (map g idxs) idxs) = map (\<lambda>i. (g i, i)) (filter (\<lambda>i. P (g i)) idxs)"
  by (induction idxs) auto

subsection \<open>The catalog join and the loop over the selection\<close>

lemma score_extend [simp]: "score (product.extend p \<lparr>score = s\<rparr>) = s"
  by (simp add: product.defs)

lemma pid_extend [simp]: "pid (product.extend p m) = pid p"
  by (simp add: product.defs)

lemma pmap_foldl_dom:
  "dom (foldl (\<lambda>m p. m(pid p \<mapsto> p)) m ps) = dom m \<union> pid ` set ps"
  by (induction ps arbitrary: m) auto

lemma pmap_of_dom: "dom (pmap_of products) = pid ` set products"
  by (simp add: pmap_of_def pmap_foldl_dom)

lemma pmap_foldl_Some:
  "foldl (\<lambda>m p. m(pid p \<mapsto> p)) m ps k = Some p \<Longrightarrow> m k = Some p \<or> (p \<in> set ps \<and> pid p = k)"
proof (induction ps arbitrary: m)
  case Nil
  then show ?case by simp
next
  case (Cons a ps)
  from Cons.prems have "foldl (\<lambda>m p. m(pid p \<mapsto> p)) (m(pid a \<mapsto> a)) ps k = Some p"
    by (simp only: foldl_Cons)
  from Cons.IH [OF this] show ?case
    by (auto split: if_splits)
qed

lemma pmap_of_Some: "pmap_of products k = Some p \<Longrightarrow> p \<in> set products \<and> pid p = k"
  using pmap_foldl_Some [of Map.empty products k p] by (simp add: pmap_of_def)

lemma retained_eq:
  "retained products its = filter (\<lambda>it. item_id it \<in> pid ` set products) its"
  by (simp add: retained_def pmap_of_dom)

lemma collect_Inr:
  "collect pm ids ms prs = Inr rs \<Longrightarrow>
     rs = map (join_result pm ids) (filter (\<lambda>(s, i). \<not> s < ms) prs)
     \<and> (\<forall>(s, i) \<in> set (filter (\<lambda>(s, i). \<not> s < ms) prs). i < length ids \<and> ids ! i \<in> dom pm)"
proof (induction pm ids ms prs arbitrary: rs rule: collect.induct)
  case (1 pmap ids min_score)
  then show ?case by simp
next
  case (2 pmap ids min_score s i rest)
  show ?case
  proof (cases "s < min_score")
    case True
    with 2 show ?thesis by simp
  next
    case False
    with "2.prems" obtain p rs' where
      i: "i < length ids" and p: "pmap (ids ! i) = Some p" and
      r: "collect pmap ids min_score rest = Inr rs'" and rs: "rs = product.extend p \<lparr>score = s\<rparr> # rs'"
      by (auto split: if_splits option.splits sum.splits)
    from "2.IH"(2) [OF False _ p r] i
    have "rs' = map (join_result pmap ids) (filter (\<lambda>(s, i). \<not> s < min_score) rest)
          \<and> (\<forall>(s, i) \<in> set (filter (\<lambda>(s, i). \<not> s < min_score) rest). i < length ids \<and> ids ! i \<in> dom pmap)"
      by simp
    then show ?thesis using False i p rs by (auto simp: join_result_def)
  qed
qed

lemma collect_total:
  "\<forall>(s, i) \<in> set prs. i < length ids \<and> ids ! i \<in> dom pm \<Longrightarrow>
   collect pm ids ms prs = Inr (map (join_result pm ids) (filter (\<lambda>(s, i). \<not> s < ms) prs))"
  by (induction pm ids ms prs rule: collect.induct) (auto simp: join_result_def)

lemma search_core_Inr:
  assumes "search_core topk products idx qres top_k ms = Inr out"
  obtains its qf vals idxs where
    "items idx = Some its" "retained products its \<noteq> []" "qres = Inr qf"
    "\<forall>e \<in> set (map embedding (retained products its)). length e = length qf"
    "0 \<le> min top_k (int (length (retained products its)))"
    "topk (cosine_similarity qf (map embedding (retained products its)))
          (nat (min top_k (int (length (retained products its))))) = (vals, idxs)"
    "collect (pmap_of products) (map item_id (retained products its)) ms (zip vals idxs) = Inr (results out)"
    "count_out out = length (results out)"
  using assms
  by (auto simp: search_core_def Let_def cosine_similarity_def
           split: option.splits sum.splits if_splits prod.splits)

lemma length_filter_mono:
  "(\<And>x. x \<in> set xs \<Longrightarrow> P x \<Longrightarrow> Q x) \<Longrightarrow> length (filter P xs) \<le> length (filter Q xs)"
  by (induction xs) auto

lemma retained_ids:
  "i < length (retained products its) \<Longrightarrow>
   map item_id (retained products its) ! i \<in> dom (pmap_of products)"
  using nth_mem [of i "retained products its"] by (auto simp: retained_def)

text \<open>What search_core returns when the selection meets its contract.\<close>

lemma search_core_eq:
  fixes ms :: real
  assumes c: "topk_contract topk" and its: "items idx = Some its"
    and ne: "retained products its \<noteq> []"
    and dims: "\<forall>e \<in> set (map embedding (retained products its)). length e = length qf"
    and k0: "0 \<le> top_k"
  defines "ret \<equiv> retained products its"
  defines "sims \<equiv> cosine_similarity qf (map embedding ret)"
  defines "k \<equiv> nat (min top_k (int (length ret)))"
  defines "idxs \<equiv> snd (topk sims k)"
  defines "R \<equiv> map (\<lambda>i. join_result (pmap_of products) (map item_id ret) (sims ! i, i))
                    (filter (\<lambda>i. ms \<le> sims ! i) idxs)"
  shows "search_core topk products idx (Inr qf) top_k ms = Inr \<lparr>count_out = length R, results = R\<rparr>"
    and "topk sims k = (map (\<lambda>i. sims ! i) idxs, idxs)"
    and "length idxs = k" and "distinct idxs" and "\<forall>i \<in> set idxs. i < length ret"
    and "sorted_wrt (\<lambda>a b. sims ! a \<ge> sims ! b) idxs"
    and "\<forall>j < length sims. j \<notin> set idxs \<longrightarrow> (\<forall>i \<in> set idxs. sims ! j \<le> sims ! i)"
    and "length sims = length ret" and "k = min (nat top_k) (length ret)"
proof -
  show ls: "length sims = length ret" by (simp add: sims_def cosine_similarity_def)
  show kk: "k = min (nat top_k) (length ret)" unfolding k_def using k0 by arith
  have kl: "k \<le> length sims" using ls kk by simp
  obtain vals where t: "topk sims k = (vals, idxs)"
    by (cases "topk sims k") (simp add: idxs_def)
  note D = topk_contractD [OF c kl t]
  show t': "topk sims k = (map (\<lambda>i. sims ! i) idxs, idxs)" using t D(4) by simp
  show "length idxs = k" "distinct idxs" by (rule D)+
  show r: "\<forall>i \<in> set idxs. i < length ret" using D(3) ls by simp
  show "sorted_wrt (\<lambda>a b. sims ! a \<ge> sims ! b) idxs"
    using D(5) unfolding D(4) sorted_wrt_map .
  show "\<forall>j < length sims. j \<notin> set idxs \<longrightarrow> (\<forall>i \<in> set idxs. sims ! j \<le> sims ! i)" by (rule D)
  have ok: "\<forall>(s, i) \<in> set (zip (map (\<lambda>i. sims ! i) idxs) idxs).
              i < length (map item_id ret) \<and> map item_id ret ! i \<in> dom (pmap_of products)"
  proof (clarify, intro conjI)
    fix s i assume "(s, i) \<in> set (zip (map (\<lambda>i. sims ! i) idxs) idxs)"
    then have "i \<in> set idxs" by (rule set_zip_rightD)
    then have i: "i < length ret" using r by simp
    then show "i < length (map item_id ret)" by simp
    show "map item_id ret ! i \<in> dom (pmap_of products)"
      using i retained_ids [of i products its] by (simp add: ret_def)
  qed
  have col: "collect (pmap_of products) (map item_id ret) ms (zip (map (\<lambda>i. sims ! i) idxs) idxs) = Inr R"
    unfolding collect_total [OF ok] zip_filter_fst R_def by (simp add: not_less o_def)
  have k_nonneg: "\<not> min top_k (int (length sims)) < 0" using k0 by simp
  have ne': "map embedding ret \<noteq> []" using ne by (simp add: ret_def)
  have hd_in: "hd (map embedding ret) \<in> set (map embedding ret)"
    using ne' by (rule hd_in_set)
  have dims': "\<not> (\<exists>e \<in> set (map embedding ret). length e \<noteq> length (hd (map embedding ret)))"
    "\<not> length (hd (map embedding ret)) \<noteq> length qf"
    using dims hd_in unfolding ret_def [symmetric] by auto
  have kdef: "nat (min top_k (int (length sims))) = k" by (simp add: k_def ls)
  show "search_core topk products idx (Inr qf) top_k ms = Inr \<lparr>count_out = length R, results = R\<rparr>"
    unfolding search_core_def Let_def its option.case ret_def [symmetric] sum.case
      sims_def [symmetric]
    using ne' dims' k_nonneg col t' by (simp add: kdef)
qed

lemma pid_join_result:
  "i < length ret' \<Longrightarrow> map item_id ret' ! i \<in> dom pm \<Longrightarrow> (\<And>k p. pm k = Some p \<Longrightarrow> pid p = k) \<Longrightarrow>
   pid (join_result pm (map item_id ret') (s, i)) = item_id (ret' ! i)"
  by (auto simp: join_result_def)

lemma score_join_result [simp]: "score (join_result pm ids (s, i)) = s"
  by (simp add: join_result_def)

text \<open>
  C1, amended: for a selection that meets the contract of \<^verbatim>\<open>torch.topk\<close>, \<open>top_k\<close> at
  least 1 and \<open>min_score = 0\<close>, the results are sorted by descending score, equal
  scores next to each other; their number is the minimum of \<open>top_k\<close> and the number of
  retained records (index records whose id is in the catalog) with a score of at least
  0, which is the minimum of \<open>top_k\<close> and the number of retained records when no score
  is negative; and the results are the selected records of score at least 0 in the
  order in which the selection lists them: the program adds no order of its own among
  equal scores.
\<close>

theorem C1_query_sorted_length:
  assumes c: "topk_contract topk" and k1: "1 \<le> top_k" and its: "items idx = Some its"
    and ret: "ret = retained products its"
    and sims: "sims = cosine_similarity qf (map embedding ret)"
    and s: "search_core topk products idx (Inr qf) top_k 0 = Inr out"
  shows "sorted_wrt (\<lambda>a b. score a \<ge> score b) (results out)
     \<and> length (results out) = min (nat top_k) (length (filter (\<lambda>s. 0 \<le> s) sims))
     \<and> ((\<forall>s \<in> set sims. 0 \<le> s) \<longrightarrow> length (results out) = min (nat top_k) (length ret))
     \<and> count_out out = length (results out)
     \<and> (\<exists>js. js = filter (\<lambda>j. 0 \<le> sims ! j) (snd (topk sims (min (nat top_k) (length ret))))
          \<and> distinct js \<and> (\<forall>j \<in> set js. j < length ret)
          \<and> map score (results out) = map (\<lambda>j. sims ! j) js
          \<and> map pid (results out) = map (\<lambda>j. item_id (ret ! j)) js)"
proof -
  from s obtain its' qf' where
    "items idx = Some its'" "retained products its' \<noteq> []" "Inr qf = (Inr qf' :: error + embedding)"
    "\<forall>e \<in> set (map embedding (retained products its')). length e = length qf'"
    by (rule search_core_Inr)
  then have ne: "retained products its \<noteq> []"
    and dims: "\<forall>e \<in> set (map embedding (retained products its)). length e = length qf"
    using its by auto
  have k0: "0 \<le> top_k" using k1 by simp
  define k where "k = min (nat top_k) (length ret)"
  define idxs where "idxs = snd (topk sims k)"
  define js where "js = filter (\<lambda>j. 0 \<le> sims ! j) idxs"
  note E = search_core_eq(2-9) [OF c its ne dims k0, folded ret, folded sims]
  have kk: "nat (min top_k (int (length ret))) = k" using E(8) by (simp add: k_def)
  note E1 = search_core_eq(1) [OF c its ne dims k0, where ms = 0, folded ret, folded sims,
      unfolded kk, folded idxs_def, folded js_def]
  note E' = E1 E [unfolded kk, folded idxs_def]
  have res: "results out = map (\<lambda>i. join_result (pmap_of products) (map item_id ret) (sims ! i, i)) js"
    and cnt: "count_out out = length (results out)"
    using E'(1) s by auto
  have sc: "map score (results out) = map (\<lambda>j. sims ! j) js"
    by (simp add: res o_def)
  have jr: "\<forall>j \<in> set js. j < length ret" using E'(5) by (simp add: js_def)
  have pd: "map pid (results out) = map (\<lambda>j. item_id (ret ! j)) js"
    unfolding res map_map o_def
  proof (rule map_cong [OF refl])
    fix j assume "j \<in> set js"
    then have j: "j < length ret" using jr by simp
    show "pid (join_result (pmap_of products) (map item_id ret) (sims ! j, j)) = item_id (ret ! j)"
      using j retained_ids [of j products its] pmap_of_Some [of products]
      by (intro pid_join_result) (auto simp: ret)
  qed
  have sorted_js: "sorted_wrt (\<lambda>a b. sims ! a \<ge> sims ! b) js"
    unfolding js_def by (rule sorted_wrt_filter [OF E'(6)])
  have "sorted_wrt (\<lambda>a b. score a \<ge> score b) (results out)"
    using sorted_js unfolding res sorted_wrt_map by simp
  moreover have len: "length (results out) = min (nat top_k) (length (filter (\<lambda>s. 0 \<le> s) sims))"
  proof -
    have "length (results out) = length js" by (simp add: res)
    also have "\<dots> = min k (length (filter (\<lambda>s. 0 \<le> s) sims))"
      unfolding js_def using topk_count [OF E'(4) E'(3) _ E'(7), of 0] E'(5) E'(8) by simp
    also have "\<dots> = min (nat top_k) (length (filter (\<lambda>s. 0 \<le> s) sims))"
      using length_filter_le [of "\<lambda>s. 0 \<le> s" sims] E'(8) by (simp add: k_def)
    finally show ?thesis .
  qed
  moreover have "(\<forall>s \<in> set sims. 0 \<le> s) \<longrightarrow> length (results out) = min (nat top_k) (length ret)"
    using len E'(8) by (simp add: filter_id_conv [THEN iffD2])
  moreover have "distinct js" using E'(4) by (simp add: js_def)
  ultimately show ?thesis
    using cnt sc pd jr unfolding js_def idxs_def k_def by blast
qed

text \<open>
  C3: the threshold is applied to what the selection returned: the scores of the
  results are the selected values that are at least \<open>min_score\<close>; every result has a
  score of at least \<open>min_score\<close>; there are at most \<open>top_k\<close> results; and with a higher
  threshold the same query returns no more results.
\<close>

theorem C3_threshold:
  assumes c: "topk_contract topk"
    and s: "search_core topk products idx qres top_k min_score = Inr out"
  shows "(\<forall>r \<in> set (results out). min_score \<le> score r)
     \<and> int (length (results out)) \<le> top_k
     \<and> (\<exists>its qf. items idx = Some its \<and> qres = Inr qf
          \<and> map score (results out) =
              filter (\<lambda>s. min_score \<le> s)
                (fst (topk (cosine_similarity qf (map embedding (retained products its)))
                           (nat (min top_k (int (length (retained products its))))))))
     \<and> (\<forall>m'. min_score \<le> m' \<longrightarrow>
          (\<exists>out'. search_core topk products idx qres top_k m' = Inr out'
             \<and> length (results out') \<le> length (results out)))"
proof -
  from s obtain its qf where
    its: "items idx = Some its" and ne: "retained products its \<noteq> []" and q: "qres = Inr qf"
    and dims: "\<forall>e \<in> set (map embedding (retained products its)). length e = length qf"
    and k: "0 \<le> min top_k (int (length (retained products its)))"
    by (rule search_core_Inr)
  have k0: "0 \<le> top_k" using k by simp
  define sims where "sims = cosine_similarity qf (map embedding (retained products its))"
  define idxs where "idxs = snd (topk sims (nat (min top_k (int (length (retained products its))))))"
  note E = search_core_eq(2-9) [OF c its ne dims k0, folded sims_def, folded idxs_def]
  have R: "search_core topk products idx qres top_k m = Inr
             \<lparr>count_out = length (map (\<lambda>i. join_result (pmap_of products) (map item_id (retained products its)) (sims ! i, i))
                    (filter (\<lambda>i. m \<le> sims ! i) idxs)),
              results = map (\<lambda>i. join_result (pmap_of products) (map item_id (retained products its)) (sims ! i, i))
                    (filter (\<lambda>i. m \<le> sims ! i) idxs)\<rparr>" for m
    using search_core_eq(1) [OF c its ne dims k0, where ms = m, folded sims_def, folded idxs_def] q
    by simp
  have res: "results out = map (\<lambda>i. join_result (pmap_of products) (map item_id (retained products its)) (sims ! i, i))
                    (filter (\<lambda>i. min_score \<le> sims ! i) idxs)"
    using R [of min_score] s by auto
  have "\<forall>r \<in> set (results out). min_score \<le> score r"
    by (auto simp: res)
  moreover have "int (length (results out)) \<le> top_k"
  proof -
    have "length (results out) \<le> length idxs" by (simp add: res)
    then show ?thesis using E(2) E(8) k0 by arith
  qed
  moreover have "map score (results out) = filter (\<lambda>s. min_score \<le> s)
      (fst (topk sims (nat (min top_k (int (length (retained products its)))))))"
    unfolding E(1) fst_conv filter_map res map_map o_def by simp
  moreover have "\<forall>m'. min_score \<le> m' \<longrightarrow>
          (\<exists>out'. search_core topk products idx qres top_k m' = Inr out'
             \<and> length (results out') \<le> length (results out))"
  proof (intro allI impI)
    fix m' assume m: "min_score \<le> m'"
    have "length (filter (\<lambda>i. m' \<le> sims ! i) idxs) \<le> length (filter (\<lambda>i. min_score \<le> sims ! i) idxs)"
      using m by (intro length_filter_mono) simp
    then show "\<exists>out'. search_core topk products idx qres top_k m' = Inr out'
             \<and> length (results out') \<le> length (results out)"
      unfolding R [of m'] res by simp
  qed
  ultimately show ?thesis using its q unfolding sims_def by blast
qed

lemma search_core_ids:
  assumes s: "search_core topk products idx qres top_k ms = Inr out" and its: "items idx = Some its"
    and r: "r \<in> set (results out)"
  shows "pid r \<in> pid ` set products \<and> pid r \<in> item_id ` set (retained products its) \<and> \<not> score r < ms"
proof -
  from s obtain its' vals idxs where
    "items idx = Some its'"
    "collect (pmap_of products) (map item_id (retained products its')) ms (zip vals idxs) = Inr (results out)"
    by (rule search_core_Inr)
  then have col: "collect (pmap_of products) (map item_id (retained products its)) ms (zip vals idxs)
                    = Inr (results out)"
    using its by simp
  define ids where "ids = map item_id (retained products its)"
  note C = collect_Inr [OF col, folded ids_def]
  from C r obtain sc i where
    si: "(sc, i) \<in> set (filter (\<lambda>(s, i). \<not> s < ms) (zip vals idxs))" and
    rr: "r = join_result (pmap_of products) ids (sc, i)"
    by auto
  from C si have i: "i < length ids" and d: "ids ! i \<in> dom (pmap_of products)"
    by auto
  from d obtain p where p: "pmap_of products (ids ! i) = Some p" by auto
  have "pid r = ids ! i" using rr p pmap_of_Some [OF p] by (simp add: join_result_def)
  moreover have "ids ! i \<in> set ids" using i by simp
  moreover have "\<not> sc < ms" using si by simp
  ultimately show ?thesis using d rr by (simp add: pmap_of_dom ids_def)
qed

text \<open>
  C5: the search keeps exactly the records of the index whose id is the id of a
  product of the catalog; it fails with the empty-index error when none is kept; every
  result carries an id of the catalog that is also the id of a kept record; and when
  the loaded index is fresh the file is left as it was.
\<close>

theorem C5_catalog_join:
  "(ensure_index lp enc products now fs False = (Inr idx, fs') \<and> items idx = Some its \<longrightarrow>
      retained products its = filter (\<lambda>it. item_id it \<in> pid ` set products) its
      \<and> (retained products its = [] \<longrightarrow>
           search lp enc topk products now fs query_path top_k min_score = (Inl Empty_Embeddings_Index, fs'))
      \<and> (\<forall>out. search lp enc topk products now fs query_path top_k min_score = (Inr out, fs') \<longrightarrow>
           (\<forall>r \<in> set (results out).
              pid r \<in> pid ` set products \<and> pid r \<in> item_id ` set (retained products its))))
   \<and> (load_embeddings fs = Inr idx \<and> \<not> needs_rebuild False idx products \<longrightarrow>
        snd (search lp enc topk products now fs query_path top_k min_score) = fs)"
proof (intro conjI impI allI ballI)
  assume "ensure_index lp enc products now fs False = (Inr idx, fs') \<and> items idx = Some its"
  show "retained products its = filter (\<lambda>it. item_id it \<in> pid ` set products) its"
    by (rule retained_eq)
next
  assume a: "ensure_index lp enc products now fs False = (Inr idx, fs') \<and> items idx = Some its"
    and "retained products its = []"
  then show "search lp enc topk products now fs query_path top_k min_score = (Inl Empty_Embeddings_Index, fs')"
    by (simp add: search_def search_core_def)
next
  fix out r
  assume a: "ensure_index lp enc products now fs False = (Inr idx, fs') \<and> items idx = Some its"
    and s: "search lp enc topk products now fs query_path top_k min_score = (Inr out, fs')"
    and r: "r \<in> set (results out)"
  from a s have "search_core topk products idx (query_features lp enc query_path) top_k min_score = Inr out"
    by (simp add: search_def)
  from search_core_ids [OF this _ r] a
  show "pid r \<in> pid ` set products" "pid r \<in> item_id ` set (retained products its)" by simp_all
next
  assume "load_embeddings fs = Inr idx \<and> \<not> needs_rebuild False idx products"
  then show "snd (search lp enc topk products now fs query_path top_k min_score) = fs"
    by (simp add: search_def ensure_index_def)
qed

text \<open>
  C10: with \<open>min_score = 0\<close> no result has a negative score, and when fewer retained
  records have a score of at least 0 than the minimum of \<open>top_k\<close> and the number of
  retained records, the search returns fewer results than that minimum.
\<close>

theorem C10_negative_dropped:
  "(search_core topk products idx qres top_k 0 = Inr out \<and> items idx = Some its \<longrightarrow>
      (\<forall>r \<in> set (results out). 0 \<le> score r))
   \<and> (topk_contract topk \<and> items idx = Some its
       \<and> search_core topk products idx (Inr qf) top_k 0 = Inr out
       \<and> length (filter (\<lambda>s. 0 \<le> s) (cosine_similarity qf (map embedding (retained products its))))
           < min (nat top_k) (length (retained products its))
      \<longrightarrow> length (results out) < min (nat top_k) (length (retained products its)))"
proof (intro conjI impI ballI)
  fix r
  assume "search_core topk products idx qres top_k 0 = Inr out \<and> items idx = Some its"
    and "r \<in> set (results out)"
  then show "0 \<le> score r" using search_core_ids [of topk products idx qres top_k 0 out its r] by simp
next
  assume a: "topk_contract topk \<and> items idx = Some its
       \<and> search_core topk products idx (Inr qf) top_k 0 = Inr out
       \<and> length (filter (\<lambda>s. 0 \<le> s) (cosine_similarity qf (map embedding (retained products its))))
           < min (nat top_k) (length (retained products its))"
  then have c: "topk_contract topk" and its: "items idx = Some its"
    and s: "search_core topk products idx (Inr qf) top_k 0 = Inr out" by simp_all
  from s obtain its' qf' where
    "items idx = Some its'" "retained products its' \<noteq> []" "Inr qf = (Inr qf' :: error + embedding)"
    "\<forall>e \<in> set (map embedding (retained products its')). length e = length qf'"
    "0 \<le> min top_k (int (length (retained products its')))"
    by (rule search_core_Inr)
  then have ne: "retained products its \<noteq> []"
    and dims: "\<forall>e \<in> set (map embedding (retained products its)). length e = length qf"
    and k0: "0 \<le> top_k"
    using its by auto
  define sims where "sims = cosine_similarity qf (map embedding (retained products its))"
  define idxs where "idxs = snd (topk sims (nat (min top_k (int (length (retained products its))))))"
  note E = search_core_eq(2-9) [OF c its ne dims k0, folded sims_def, folded idxs_def]
  note E1 = search_core_eq(1) [OF c its ne dims k0, where ms = 0, folded sims_def, folded idxs_def]
  have "length (results out) = length (filter (\<lambda>i. 0 \<le> sims ! i) idxs)"
    using E1 s by auto
  also have "\<dots> = min (nat (min top_k (int (length (retained products its))))) (length (filter (\<lambda>s. 0 \<le> s) sims))"
    using topk_count [OF E(3) E(2) _ E(6), of 0] E(4) E(7) by simp
  finally show "length (results out) < min (nat top_k) (length (retained products its))"
    using a E(8) by (simp add: sims_def)
qed

subsection \<open>Concrete runs\<close>

lemmas search_eval =
  search_core_def Let_def retained_def pmap_of_def cosine_similarity_def topk_stable_def
  product.defs

lemma example_retained:
  "retained ex_products ex_items =
     [\<lparr>item_id = ''p3'', embedding = [-1, 0]\<rparr>,
      \<lparr>item_id = ''p2'', embedding = [3 / 5, - (4 / 5)]\<rparr>,
      \<lparr>item_id = ''p1'', embedding = [3 / 5, 4 / 5]\<rparr>,
      \<lparr>item_id = ''p4'', embedding = [1, 0]\<rparr>]"
  by (simp add: retained_def pmap_of_def)

lemma example_sims:
  "cosine_similarity [1, 0] (map embedding (retained ex_products ex_items)) = [-1, 3 / 5, 3 / 5, 1]"
  by (simp add: example_retained cosine_similarity_def)

lemma example_items: "items ex_index = Some ex_items"
  by simp

lemma example_search:
  "search_core topk_stable ex_products ex_index (Inr [1, 0]) 4 0
     = Inr \<lparr>count_out = 3, results = ex_results\<rparr>"
  by (simp add: search_eval)

lemma example_search_last:
  "search_core topk_last ex_products ex_index (Inr [1, 0]) 4 0
     = Inr \<lparr>count_out = 3, results = ex_results_last\<rparr>"
  by (simp add: search_eval topk_last_def)

lemma example_selected_last:
  "filter (\<lambda>j. 0 \<le> cosine_similarity [1, 0] (map embedding (retained ex_products ex_items)) ! j)
     (snd (topk_last (cosine_similarity [1, 0] (map embedding (retained ex_products ex_items)))
            (min (nat 4) (length (retained ex_products ex_items)))))
   = [3, 2, 1]"
  by (simp add: example_retained cosine_similarity_def topk_last_def Let_def)

lemma example_no_negative:
  "search_core topk_last
      [\<lparr>pid = ''p1'', name = ''Shirt'', category = ''Shirts'', image_url = ''a.jpg''\<rparr>,
       \<lparr>pid = ''p2'', name = ''Shoe'', category = ''Shoes'', image_url = ''b.jpg''\<rparr>]
      \<lparr>model = Some MODEL_NAME, created_at = None, count = None,
       items = Some [\<lparr>item_id = ''p1'', embedding = [1, 0]\<rparr>, \<lparr>item_id = ''p2'', embedding = [3 / 5, 4 / 5]\<rparr>]\<rparr>
      (Inr [1, 0]) 2 0
     = Inr \<lparr>count_out = 2,
            results = [\<lparr>pid = ''p1'', name = ''Shirt'', category = ''Shirts'', image_url = ''a.jpg'', score = 1\<rparr>,
                       \<lparr>pid = ''p2'', name = ''Shoe'', category = ''Shoes'', image_url = ''b.jpg'', score = 3 / 5\<rparr>]\<rparr>"
  by (simp add: search_eval topk_last_def)

lemma example_no_negative_sims:
  "cosine_similarity [1, 0]
     (map embedding
       (retained [\<lparr>pid = ''p1'', name = ''Shirt'', category = ''Shirts'', image_url = ''a.jpg''\<rparr>,
                  \<lparr>pid = ''p2'', name = ''Shoe'', category = ''Shoes'', image_url = ''b.jpg''\<rparr>]
                 [\<lparr>item_id = ''p1'', embedding = [1, 0]\<rparr>, \<lparr>item_id = ''p2'', embedding = [3 / 5, 4 / 5]\<rparr>]))
   = [1, 3 / 5]"
  "length (retained [\<lparr>pid = ''p1'', name = ''Shirt'', category = ''Shirts'', image_url = ''a.jpg''\<rparr>,
                  \<lparr>pid = ''p2'', name = ''Shoe'', category = ''Shoes'', image_url = ''b.jpg''\<rparr>]
                 [\<lparr>item_id = ''p1'', embedding = [1, 0]\<rparr>, \<lparr>item_id = ''p2'', embedding = [3 / 5, 4 / 5]\<rparr>]) = 2"
  by (simp_all add: retained_def pmap_of_def cosine_similarity_def)

text \<open>
  C1, as the claim states it, fails twice. A single retained record opposite to the
  query is selected and then dropped by the threshold 0, so that nothing is returned
  where the claim counts one result. And the order of equal scores is the one of the
  selection, which its contract leaves open: with a selection that meets the contract
  and lists equal values from the last position down, \<open>p1\<close> is returned before \<open>p2\<close>,
  both with the score 3/5, although \<open>p2\<close> comes first in the index.
\<close>

theorem C1_counterexample:
  "topk_contract topk_last
   \<and> search_core topk_last
      [\<lparr>pid = ''p1'', name = ''Shirt'', category = ''Shirts'', image_url = ''a.jpg''\<rparr>]
      \<lparr>model = Some MODEL_NAME, created_at = None, count = None,
       items = Some [\<lparr>item_id = ''p1'', embedding = [-1, 0]\<rparr>]\<rparr>
      (Inr [1, 0]) 1 0
     = Inr \<lparr>count_out = 0, results = []\<rparr>
   \<and> min (1 :: nat)
        (length (retained [\<lparr>pid = ''p1'', name = ''Shirt'', category = ''Shirts'', image_url = ''a.jpg''\<rparr>]
                          [\<lparr>item_id = ''p1'', embedding = [-1, 0]\<rparr>])) = 1
   \<and> search_core topk_last ex_products ex_index (Inr [1, 0]) 4 0
       = Inr \<lparr>count_out = 3, results = ex_results_last\<rparr>
   \<and> map item_id (retained ex_products ex_items) = [''p3'', ''p2'', ''p1'', ''p4'']
   \<and> cosine_similarity [1, 0] (map embedding (retained ex_products ex_items)) = [-1, 3 / 5, 3 / 5, 1]
   \<and> map pid ex_results_last = [''p4'', ''p1'', ''p2'']
   \<and> map score ex_results_last = [1, 3 / 5, 3 / 5]"
  by (simp add: topk_last_contract search_eval topk_last_def)

theorem C1_query_sorted_length_witness:
  "topk_contract topk_last
   \<and> search_core topk_last ex_products ex_index (Inr [1, 0]) 4 0
       = Inr \<lparr>count_out = 3, results = ex_results_last\<rparr>
   \<and> cosine_similarity [1, 0] (map embedding (retained ex_products ex_items)) = [-1, 3 / 5, 3 / 5, 1]
   \<and> sorted_wrt (\<lambda>a b. score a \<ge> score b) ex_results_last
   \<and> length ex_results_last = min (nat 4) (length (filter (\<lambda>s. 0 \<le> s) [-1, 3 / 5, 3 / 5, 1 :: real]))
   \<and> map score ex_results_last = map (\<lambda>j. [-1, 3 / 5, 3 / 5, 1 :: real] ! j) [3, 2, 1]
   \<and> map pid ex_results_last = map (\<lambda>j. item_id (retained ex_products ex_items ! j)) [3, 2, 1]
   \<and> list_all (\<lambda>s. 0 \<le> s) [1, 3 / 5 :: real]
   \<and> length [\<lparr>pid = ''p1'', name = ''Shirt'', category = ''Shirts'', image_url = ''a.jpg'', score = 1\<rparr>,
              \<lparr>pid = ''p2'', name = ''Shoe'', category = ''Shoes'', image_url = ''b.jpg'', score = 3 / 5\<rparr>]
       = min (nat 2) 2"
proof -
  have k1: "(1 :: int) \<le> 4" "(1 :: int) \<le> 2" by simp_all
  note t = C1_query_sorted_length [OF topk_last_contract k1(1) example_items refl refl example_search_last]
  have a: "sorted_wrt (\<lambda>a b. score a \<ge> score b) ex_results_last"
    using t [THEN conjunct1] by (simp only: search_output.select_convs)
  have b: "length ex_results_last = min (nat 4) (length (filter (\<lambda>s. 0 \<le> s) [-1, 3 / 5, 3 / 5, 1 :: real]))"
    using t [THEN conjunct2, THEN conjunct1] by (simp only: search_output.select_convs example_sims)
  from t [THEN conjunct2, THEN conjunct2, THEN conjunct2, THEN conjunct2]
  have c: "map score ex_results_last = map (\<lambda>j. [-1, 3 / 5, 3 / 5, 1 :: real] ! j) [3, 2, 1]"
    and d: "map pid ex_results_last = map (\<lambda>j. item_id (retained ex_products ex_items ! j)) [3, 2, 1]"
    unfolding example_selected_last search_output.select_convs
    by (simp_all only: example_sims simp_thms)
  have nn: "\<forall>s \<in> set [1, 3 / 5 :: real]. 0 \<le> s" by simp
  have it2: "items \<lparr>model = Some MODEL_NAME, created_at = None, count = None,
       items = Some [\<lparr>item_id = ''p1'', embedding = [1, 0]\<rparr>, \<lparr>item_id = ''p2'', embedding = [3 / 5, 4 / 5]\<rparr>]\<rparr>
     = Some [\<lparr>item_id = ''p1'', embedding = [1, 0]\<rparr>, \<lparr>item_id = ''p2'', embedding = [3 / 5, 4 / 5]\<rparr>]"
    by simp
  note u = C1_query_sorted_length [OF topk_last_contract k1(2) it2 refl refl example_no_negative,
      THEN conjunct2, THEN conjunct2, THEN conjunct1, unfolded example_no_negative_sims search_output.select_convs,
      THEN mp, OF nn]
  have e: "length [\<lparr>pid = ''p1'', name = ''Shirt'', category = ''Shirts'', image_url = ''a.jpg'', score = 1\<rparr>,
              \<lparr>pid = ''p2'', name = ''Shoe'', category = ''Shoes'', image_url = ''b.jpg'', score = 3 / 5\<rparr>]
       = min (nat 2) 2"
    by (rule u)
  have nn': "list_all (\<lambda>s. 0 \<le> s) [1, 3 / 5 :: real]" by simp
  show ?thesis
    using a b c d e nn' topk_last_contract example_search_last example_sims by blast
qed

theorem C3_threshold_witness:
  "topk_contract topk_stable
   \<and> search_core topk_stable ex_products ex_index (Inr [1, 0]) 4 0
       = Inr \<lparr>count_out = 3, results = ex_results\<rparr>
   \<and> list_all (\<lambda>r. 0 \<le> score r) ex_results
   \<and> int (length ex_results) \<le> 4
   \<and> (0 :: real) \<le> 9 / 10
   \<and> (\<exists>out'. search_core topk_stable ex_products ex_index (Inr [1, 0]) 4 (9 / 10) = Inr out'
          \<and> length (results out') \<le> length ex_results)"
proof -
  note t = C3_threshold [OF topk_stable_contract example_search]
  have m: "(0 :: real) \<le> 9 / 10" by simp
  have a: "\<forall>r \<in> set ex_results. 0 \<le> score r"
    using t [THEN conjunct1] by (simp only: search_output.select_convs)
  have b: "int (length ex_results) \<le> 4"
    using t [THEN conjunct2, THEN conjunct1] by (simp only: search_output.select_convs)
  have c: "\<exists>out'. search_core topk_stable ex_products ex_index (Inr [1, 0]) 4 (9 / 10) = Inr out'
          \<and> length (results out') \<le> length ex_results"
    using t [THEN conjunct2, THEN conjunct2, THEN conjunct2, THEN spec, THEN mp, OF m]
    by (simp only: search_output.select_convs)
  have a': "list_all (\<lambda>r. 0 \<le> score r) ex_results"
    using a by (simp only: list_all_iff)
  show ?thesis
    using a' b c m topk_stable_contract example_search by blast
qed

theorem C10_negative_dropped_witness:
  "topk_contract topk_stable
   \<and> search_core topk_stable ex_products ex_index (Inr [1, 0]) 4 0
       = Inr \<lparr>count_out = 3, results = ex_results\<rparr>
   \<and> cosine_similarity [1, 0] (map embedding (retained ex_products ex_items)) = [-1, 3 / 5, 3 / 5, 1]
   \<and> length (filter (\<lambda>s. 0 \<le> s) [-1, 3 / 5, 3 / 5, 1 :: real])
       < min (nat 4) (length (retained ex_products ex_items))
   \<and> list_all (\<lambda>r. 0 \<le> score r) ex_results
   \<and> length ex_results < min (nat 4) (length (retained ex_products ex_items))"
proof -
  note t = C10_negative_dropped [where topk = topk_stable and products = ex_products
      and idx = ex_index and its = ex_items and qres = "Inr [1, 0]" and qf = "[1, 0]" and top_k = 4
      and out = "\<lparr>count_out = 3, results = ex_results\<rparr>"]
  have h: "length (filter (\<lambda>s. 0 \<le> s) [-1, 3 / 5, 3 / 5, 1 :: real])
      < min (nat 4) (length (retained ex_products ex_items))"
    by (simp add: example_retained)
  have a: "\<forall>r \<in> set ex_results. 0 \<le> score r"
    using t [THEN conjunct1, THEN mp, OF conjI, OF example_search example_items]
    by (simp only: search_output.select_convs)
  have h': "length (filter (\<lambda>s. 0 \<le> s) (cosine_similarity [1, 0] (map embedding (retained ex_products ex_items))))
      < min (nat 4) (length (retained ex_products ex_items))"
    using h by (simp only: example_sims)
  have b: "length ex_results < min (nat 4) (length (retained ex_products ex_items))"
    using t [THEN conjunct2, THEN mp, OF conjI, OF topk_stable_contract conjI, OF example_items conjI,
        OF example_search h']
    by (simp only: search_output.select_convs)
  have a': "list_all (\<lambda>r. 0 \<le> score r) ex_results"
    using a by (simp only: list_all_iff)
  show ?thesis
    using a' b h topk_stable_contract example_search example_sims by blast
qed

lemma example_fresh:
  "load_embeddings (Json (payload 1600000000 ex_items)) = Inr (payload 1600000000 ex_items)
   \<and> \<not> needs_rebuild False (payload 1600000000 ex_items) ex_products"
  "ensure_index lp enc ex_products now (Json (payload 1600000000 ex_items)) False
     = (Inr (payload 1600000000 ex_items), Json (payload 1600000000 ex_items))"
  by (simp_all add: ensure_index_def needs_rebuild_def payload_def empty_dict_def)

lemma example_search_file:
  "search (\<lambda>u. Some u) (\<lambda>ts. Some (map (\<lambda>t. [1, 0]) ts)) topk_stable ex_products 1700000000
       (Json (payload 1600000000 ex_items)) ''query.jpg'' 4 0
     = (Inr \<lparr>count_out = 3, results = ex_results\<rparr>, Json (payload 1600000000 ex_items))"
  by (simp add: search_def example_fresh query_features_def)
     (simp add: payload_def search_eval)

lemma example_stale:
  "ensure_index lp enc [\<lparr>pid = ''p1'', name = ''Shirt'', category = ''Shirts'', image_url = ''a.jpg''\<rparr>] now
       (Json (payload 1600000000 [\<lparr>item_id = ''p9'', embedding = [1, 0]\<rparr>])) False
     = (Inr (payload 1600000000 [\<lparr>item_id = ''p9'', embedding = [1, 0]\<rparr>]),
        Json (payload 1600000000 [\<lparr>item_id = ''p9'', embedding = [1, 0]\<rparr>]))"
  "retained [\<lparr>pid = ''p1'', name = ''Shirt'', category = ''Shirts'', image_url = ''a.jpg''\<rparr>]
            [\<lparr>item_id = ''p9'', embedding = [1, 0]\<rparr>] = []"
  by (simp_all add: ensure_index_def needs_rebuild_def payload_def empty_dict_def retained_def pmap_of_def)

lemma payload_items: "items (payload now its) = Some its"
  by (simp add: payload_def)

theorem C5_catalog_join_witness:
  "search (\<lambda>u. Some u) (\<lambda>ts. Some (map (\<lambda>t. [1, 0]) ts)) topk_stable ex_products 1700000000
       (Json (payload 1600000000 ex_items)) ''query.jpg'' 4 0
     = (Inr \<lparr>count_out = 3, results = ex_results\<rparr>, Json (payload 1600000000 ex_items))
   \<and> \<not> needs_rebuild False (payload 1600000000 ex_items) ex_products
   \<and> list_all (\<lambda>r. pid r \<in> pid ` set ex_products \<and> pid r \<in> item_id ` set (retained ex_products ex_items))
        ex_results
   \<and> snd (search (\<lambda>u. Some u) (\<lambda>ts. Some (map (\<lambda>t. [1, 0]) ts)) topk_stable ex_products 1700000000
            (Json (payload 1600000000 ex_items)) ''query.jpg'' 4 0)
       = Json (payload 1600000000 ex_items)
   \<and> retained [\<lparr>pid = ''p1'', name = ''Shirt'', category = ''Shirts'', image_url = ''a.jpg''\<rparr>]
               [\<lparr>item_id = ''p9'', embedding = [1, 0]\<rparr>] = []
   \<and> search (\<lambda>u. Some u) (\<lambda>ts. Some (map (\<lambda>t. [1, 0]) ts)) topk_stable
       [\<lparr>pid = ''p1'', name = ''Shirt'', category = ''Shirts'', image_url = ''a.jpg''\<rparr>] 1700000000
       (Json (payload 1600000000 [\<lparr>item_id = ''p9'', embedding = [1, 0]\<rparr>])) ''query.jpg'' 4 0
     = (Inl Empty_Embeddings_Index, Json (payload 1600000000 [\<lparr>item_id = ''p9'', embedding = [1, 0]\<rparr>]))"
proof -
  note g = C5_catalog_join [where lp = "\<lambda>u. Some u" and enc = "\<lambda>ts. Some (map (\<lambda>t. [1, 0]) ts)"
      and topk = topk_stable and now = 1700000000
      and query_path = "''query.jpg''" and top_k = 4 and min_score = 0]
  note t = g [THEN conjunct1, THEN mp, OF conjI]
  note t1 = t [OF example_fresh(2) payload_items]
  note t2 = t [OF example_stale(1) payload_items]
  have a: "\<forall>r \<in> set ex_results. pid r \<in> pid ` set ex_products \<and> pid r \<in> item_id ` set (retained ex_products ex_items)"
    using t1 [THEN conjunct2, THEN conjunct2, THEN spec, THEN mp, OF example_search_file]
    by (simp only: search_output.select_convs)
  have b: "search (\<lambda>u. Some u) (\<lambda>ts. Some (map (\<lambda>t. [1, 0]) ts)) topk_stable
       [\<lparr>pid = ''p1'', name = ''Shirt'', category = ''Shirts'', image_url = ''a.jpg''\<rparr>] 1700000000
       (Json (payload 1600000000 [\<lparr>item_id = ''p9'', embedding = [1, 0]\<rparr>])) ''query.jpg'' 4 0
     = (Inl Empty_Embeddings_Index, Json (payload 1600000000 [\<lparr>item_id = ''p9'', embedding = [1, 0]\<rparr>]))"
    using t2 [THEN conjunct2, THEN conjunct1, THEN mp, OF example_stale(2)] .
  have c: "snd (search (\<lambda>u. Some u) (\<lambda>ts. Some (map (\<lambda>t. [1, 0]) ts)) topk_stable ex_products 1700000000
            (Json (payload 1600000000 ex_items)) ''query.jpg'' 4 0)
       = Json (payload 1600000000 ex_items)"
    using g [THEN conjunct2, THEN mp, OF example_fresh(1)] .
  have a': "list_all (\<lambda>r. pid r \<in> pid ` set ex_products \<and> pid r \<in> item_id ` set (retained ex_products ex_items))
        ex_results"
    using a by (simp only: list_all_iff)
  show ?thesis
    using a' b c example_fresh(1) example_search_file example_stale(2) by blast
qed

lemma example_build_items:
  "successful_items (\<lambda>u. if u = ''missing.jpg'' then None else Some u) (\<lambda>t. [1, 0])
       (replicate 17 \<lparr>pid = ''p1'', name = ''Shirt'', category = ''Shirts'', image_url = ''a.jpg''\<rparr>
        @ [\<lparr>pid = ''p2'', name = ''Shoe'', category = ''Shoes'', image_url = ''missing.jpg''\<rparr>,
           \<lparr>pid = ''p3'', name = ''Watch'', category = ''Watches'', image_url = ''c.jpg''\<rparr>])
    = replicate 17 \<lparr>item_id = ''p1'', embedding = [1, 0]\<rparr> @ [\<lparr>item_id = ''p3'', embedding = [1, 0]\<rparr>]"
  by (simp add: successful_items_def List.map_filter_def)

theorem C4_build_witness:
  "build_index (\<lambda>u. if u = ''missing.jpg'' then None else Some u) (\<lambda>ts. Some (map (\<lambda>t. [1, 0]) ts))
       (replicate 17 \<lparr>pid = ''p1'', name = ''Shirt'', category = ''Shirts'', image_url = ''a.jpg''\<rparr>
        @ [\<lparr>pid = ''p2'', name = ''Shoe'', category = ''Shoes'', image_url = ''missing.jpg''\<rparr>,
           \<lparr>pid = ''p3'', name = ''Watch'', category = ''Watches'', image_url = ''c.jpg''\<rparr>])
       1700000000 No_file
     = (Inr \<lparr>model = Some MODEL_NAME, created_at = None, count = None,
             items = Some (replicate 17 \<lparr>item_id = ''p1'', embedding = [1, 0]\<rparr>
                           @ [\<lparr>item_id = ''p3'', embedding = [1, 0]\<rparr>])\<rparr>,
        Json (payload 1700000000 (replicate 17 \<lparr>item_id = ''p1'', embedding = [1, 0]\<rparr>
                           @ [\<lparr>item_id = ''p3'', embedding = [1, 0]\<rparr>])))
   \<and> count (payload 1700000000 (replicate 17 \<lparr>item_id = ''p1'', embedding = [1, 0]\<rparr>
                           @ [\<lparr>item_id = ''p3'', embedding = [1, 0]\<rparr>])) = Some 18
   \<and> build_index (\<lambda>u. if u = ''missing.jpg'' then None else Some u) (\<lambda>ts. None)
       [\<lparr>pid = ''p2'', name = ''Shoe'', category = ''Shoes'', image_url = ''missing.jpg''\<rparr>]
       1700000000 No_file
     = (Inr \<lparr>model = Some MODEL_NAME, created_at = None, count = None, items = Some []\<rparr>,
        Json (payload 1700000000 []))"
proof -
  have enc: "\<forall>ts. ts \<noteq> [] \<longrightarrow> (\<lambda>ts. Some (map (\<lambda>t. [1, 0 :: real]) ts)) ts = Some (map (\<lambda>t. [1, 0]) ts)"
    by simp
  have fail: "\<forall>p \<in> set [\<lparr>pid = ''p2'', name = ''Shoe'', category = ''Shoes'', image_url = ''missing.jpg''\<rparr>].
      (\<lambda>u. if u = ''missing.jpg'' then None else Some u) (image_url p) = None"
    by simp
  note a = C4_build [where lp = "\<lambda>u. if u = ''missing.jpg'' then None else Some u" and now = 1700000000
      and fs = No_file and vec_of = "\<lambda>t. [1, 0]"
      and products = "replicate 17 \<lparr>pid = ''p1'', name = ''Shirt'', category = ''Shirts'', image_url = ''a.jpg''\<rparr>
        @ [\<lparr>pid = ''p2'', name = ''Shoe'', category = ''Shoes'', image_url = ''missing.jpg''\<rparr>,
           \<lparr>pid = ''p3'', name = ''Watch'', category = ''Watches'', image_url = ''c.jpg''\<rparr>]",
      THEN conjunct1, THEN mp, OF enc, unfolded example_build_items]
  note b = C4_build [where lp = "\<lambda>u. if u = ''missing.jpg'' then None else Some u" and now = 1700000000
      and fs = No_file and enc' = "\<lambda>ts. None", THEN conjunct2, THEN mp, OF fail, THEN conjunct2]
  have c: "count (payload 1700000000 (replicate 17 \<lparr>item_id = ''p1'', embedding = [1, 0]\<rparr>
                           @ [\<lparr>item_id = ''p3'', embedding = [1, 0]\<rparr>])) = Some 18"
    using a [THEN conjunct2] by simp
  show ?thesis using a [THEN conjunct1] b c by blast
qed

end
